theory Spec2Isabelle
  imports Complex_Main
begin

unbundle bit_operations_syntax

section \<open>VoiceCraft first-run installer: constants, files and the completion marker\<close>

text \<open>
  The installer is the class \<^verbatim>\<open>SetupManager\<close> of the R2 archive installer
  (the setup module with \<^verbatim>\<open>fetchManifest\<close>, \<^verbatim>\<open>downloadFileWithResume\<close>,
  \<^verbatim>\<open>verifyChecksum\<close>, \<^verbatim>\<open>runSetup\<close>); the launch gate is \<^verbatim>\<open>needsSetup\<close> of
  \<^verbatim>\<open>electron/main.js\<close>. An older copy of the setup module, \<^verbatim>\<open>electron/setup.js\<close>,
  is embedded where a claim names it.

  Conventions of the embedding:
  \<^item> a file system is a map from path to content, content a list of bytes (\<open>char\<close>s);
  \<^item> a promise is an \<open>option\<close>: \<open>None\<close> is a promise that is never settled,
    \<open>Some (Inl e)\<close> a rejection (or a thrown exception), \<open>Some (Inr v)\<close> a resolution;
  \<^item> \<^verbatim>\<open>path.join\<close> is modelled as joining with one separator; the separator
    rewriting and normalisation of Node's \<^verbatim>\<open>path\<close> module are not modelled;
  \<^item> library functions whose code is not part of the repository (\<^verbatim>\<open>JSON.parse\<close>,
    \<^verbatim>\<open>JSON.stringify\<close>, the network, child processes) are parameters, collected in the
    environment record of the part that uses them.
\<close>

type_synonym path = string
type_synonym filesys = "path \<rightharpoonup> string"

definition R2_BASE_URL :: string where
  "R2_BASE_URL = ''https://pub-47fe74e29e49481c8ace643cd33ab71d.r2.dev/v1''"

definition SETUP_VERSION :: int where
  "SETUP_VERSION = 2"

definition MIN_FREE_SPACE_GB :: int where
  "MIN_FREE_SPACE_GB = 10"

fun path_join :: "string list \<Rightarrow> path" where
  "path_join [] = ''.''"
| "path_join [a] = a"
| "path_join (a # b # r) = a @ ''/'' @ path_join (b # r)"

definition setupFlagPath :: "path \<Rightarrow> path" where
  "setupFlagPath dataDir = path_join [dataDir, ''.setup-complete'']"

text \<open>
  The completion marker as \<^verbatim>\<open>runSetup\<close> writes it. When it is read back its
  \<^verbatim>\<open>setupVersion\<close> may be absent (a marker of an old install), hence the option.
\<close>

record marker =
  setupVersion :: "int option"
  model :: string
  useGpu :: bool
  manifestVersion :: int
  buildDate :: string
  timestamp :: string

text \<open>
  \<^verbatim>\<open>isSetupComplete\<close> of the R2 installer. \<open>parse\<close> is \<^verbatim>\<open>JSON.parse\<close> on the
  marker's text: \<open>None\<close> when it throws. \<^verbatim>\<open>!data.setupVersion\<close> holds for an absent
  field and for 0.
\<close>

definition isSetupComplete :: "(string \<Rightarrow> marker option) \<Rightarrow> path \<Rightarrow> filesys \<Rightarrow> bool" where
  "isSetupComplete parse dataDir fs =
     (case fs (setupFlagPath dataDir) of
        None \<Rightarrow> False
      | Some text \<Rightarrow>
          (case parse text of
             None \<Rightarrow> False
           | Some data \<Rightarrow>
               (case setupVersion data of
                  None \<Rightarrow> False
                | Some v \<Rightarrow> if v = 0 \<or> v < SETUP_VERSION then False else True)))"

text \<open>\<^verbatim>\<open>isSetupComplete\<close> of the older copy \<^verbatim>\<open>electron/setup.js\<close>: existence only.\<close>

definition isSetupComplete_legacy :: "path \<Rightarrow> filesys \<Rightarrow> bool" where
  "isSetupComplete_legacy dataDir fs = (fs (setupFlagPath dataDir) \<noteq> None)"

text \<open>
  \<^verbatim>\<open>needsSetup\<close> of \<^verbatim>\<open>electron/main.js\<close>, the check made on launch (and behind the
  \<^verbatim>\<open>is-setup-complete\<close> IPC handler): the marker's existence only.
\<close>

definition needsSetup :: "path \<Rightarrow> filesys \<Rightarrow> bool" where
  "needsSetup userData fs = (\<not> (fs (path_join [userData, ''.setup-complete'']) \<noteq> None))"

section \<open>Strings and numbers of the host language\<close>

text \<open>
  A JavaScript string is the list of its UTF-16 code units, numbers below \<open>2 ^ 16\<close>
  (\<open>ustring\<close>); the output of a command is such a string. Paths, command lines and
  file contents stay byte strings, and \<open>ustr\<close> is the JavaScript string of an ASCII
  literal. White space is what \<^verbatim>\<open>String.prototype.trim\<close> and \<^verbatim>\<open>parseInt\<close> strip: the
  white space and the line terminators of ECMAScript (tab, line feed, vertical tab, form
  feed, carriage return, space, no-break space, the other space separators of Unicode,
  line and paragraph separator, and the byte order mark). A \<^verbatim>\<open>replace\<close> with a string
  pattern replaces the first occurrence.
\<close>

type_synonym ustring = "nat list"

definition ustr :: "string \<Rightarrow> ustring" where
  "ustr s = map of_char s"

definition is_space :: "nat \<Rightarrow> bool" where
  "is_space c =
     (c \<in> set [0x09, 0x0A, 0x0B, 0x0C, 0x0D, 0x20, 0xA0, 0x1680, 0x2028, 0x2029, 0x202F, 0x205F, 0x3000, 0xFEFF]
      \<or> (0x2000 \<le> c \<and> c \<le> 0x200A))"

definition trim :: "ustring \<Rightarrow> ustring" where
  "trim s = rev (dropWhile is_space (rev (dropWhile is_space s)))"

fun split_on :: "'a \<Rightarrow> 'a list \<Rightarrow> 'a list list" where
  "split_on c [] = [[]]"
| "split_on c (x # xs) =
     (if x = c then [] # split_on c xs
      else (case split_on c xs of [] \<Rightarrow> [[x]] | l # ls \<Rightarrow> (x # l) # ls))"

text \<open>Array indexing: \<open>None\<close> is \<^verbatim>\<open>undefined\<close>.\<close>

definition elem_at :: "'a list \<Rightarrow> nat \<Rightarrow> 'a option" where
  "elem_at xs i = (if i < length xs then Some (xs ! i) else None)"

definition startsWith :: "'a list \<Rightarrow> 'a list \<Rightarrow> bool" where
  "startsWith s p = (take (length p) s = p)"

fun str_includes :: "'a list \<Rightarrow> 'a list \<Rightarrow> bool" where
  "str_includes [] p = (p = [])"
| "str_includes (c # cs) p = (startsWith (c # cs) p \<or> str_includes cs p)"

fun replace_first :: "'a list \<Rightarrow> 'a list \<Rightarrow> 'a list \<Rightarrow> 'a list" where
  "replace_first [] p r = (if p = [] then r else [])"
| "replace_first (c # cs) p r =
     (if startsWith (c # cs) p then r @ drop (length p) (c # cs)
      else c # replace_first cs p r)"

text \<open>
  \<^verbatim>\<open>parseInt\<close> with no radix: leading white space, a sign, a \<^verbatim>\<open>0x\<close> prefix for
  radix 16, then the longest run of digits; \<open>None\<close> is \<^verbatim>\<open>NaN\<close>. The result is the
  exact integer (a double is exact below \<open>2 ^ 53\<close>).
\<close>

definition digit_of :: "nat \<Rightarrow> nat \<Rightarrow> nat option" where
  "digit_of radix n =
     (let v = (if 48 \<le> n \<and> n \<le> 57 then Some (n - 48)
               else if 97 \<le> n \<and> n \<le> 122 then Some (n - 87)
               else if 65 \<le> n \<and> n \<le> 90 then Some (n - 55)
               else None)
      in case v of None \<Rightarrow> None | Some d \<Rightarrow> if d < radix then Some d else None)"

fun parse_digits :: "nat \<Rightarrow> ustring \<Rightarrow> nat list" where
  "parse_digits radix [] = []"
| "parse_digits radix (c # cs) =
     (case digit_of radix c of None \<Rightarrow> [] | Some d \<Rightarrow> d # parse_digits radix cs)"

definition parseInt :: "ustring \<Rightarrow> int option" where
  "parseInt str =
     (let s0 = dropWhile is_space str;
          neg = (take 1 s0 = ustr ''-'');
          s1 = (if take 1 s0 = ustr ''-'' \<or> take 1 s0 = ustr ''+'' then drop 1 s0 else s0);
          hex = (take 2 s1 = ustr ''0x'' \<or> take 2 s1 = ustr ''0X'');
          radix = (if hex then 16 else 10);
          ds = parse_digits radix (if hex then drop 2 s1 else s1)
      in if ds = [] then None
         else Some ((if neg then - 1 else 1) * int (foldl (\<lambda>a d. a * radix + d) 0 ds)))"

text \<open>
  Numbers are exact rationals. \<^verbatim>\<open>Math.round\<close> rounds to the nearest integer, a tie
  upwards. \<^verbatim>\<open>x.toFixed(1)\<close> is a decimal string with one digit after the point, the
  nearest tenth of \<open>x\<close>, a tie away from zero; it is kept as its sign and its number of
  tenths, from which \<open>fixed1_text\<close> gives the string and \<open>fixed1_number\<close> the
  number the string converts to in a comparison. (From \<open>10 ^ 21\<close> on \<^verbatim>\<open>toFixed\<close> writes
  the number in exponent notation; the text then differs from \<open>fixed1_text\<close>, the
  outcome of a comparison with 5 or 10 does not.)
\<close>

definition Math_round :: "rat \<Rightarrow> int" where
  "Math_round x = \<lfloor>x + 1 / 2\<rfloor>"

record fixed1 =
  negative :: bool
  tenths :: nat

definition toFixed1 :: "rat \<Rightarrow> fixed1" where
  "toFixed1 x = \<lparr>negative = (x < 0), tenths = nat \<lfloor>\<bar>x\<bar> * 10 + 1 / 2\<rfloor>\<rparr>"

fun show_nat :: "nat \<Rightarrow> string" where
  "show_nat n = (if n < 10 then [char_of (48 + n)] else show_nat (n div 10) @ [char_of (48 + n mod 10)])"

definition fixed1_text :: "fixed1 \<Rightarrow> string" where
  "fixed1_text f =
     (if negative f then ''-'' else []) @ show_nat (tenths f div 10) @ ''.'' @ show_nat (tenths f mod 10)"

definition fixed1_number :: "fixed1 \<Rightarrow> rat" where
  "fixed1_number f = (if negative f then - 1 else 1) * of_nat (tenths f) / 10"

section \<open>The system prober\<close>

record systemInfo =
  platform :: string
  hasPython :: bool
  pythonVersion :: "ustring option"
  hasNvidiaGpu :: bool
  gpuName :: "ustring option"
  gpuVram :: "rat option"
  hasEnoughVram :: bool
  hasEnoughSpace :: bool
  availableSpace :: string

text \<open>
  The host as \<^verbatim>\<open>checkSystem\<close> sees it: \<^verbatim>\<open>process.platform\<close>, the two directories
  of the manager, the files that exist, and \<^verbatim>\<open>execSync\<close>, which gives the standard
  output of a command or throws (\<open>None\<close>). In \<open>gpuVram\<close>, \<open>None\<close> is \<^verbatim>\<open>NaN\<close>.
\<close>

record host =
  hostPlatform :: string
  dataDir :: path
  backendDir :: path
  files :: filesys
  execSync :: "string \<Rightarrow> ustring option"

text \<open>A \<^verbatim>\<open>try\<close> block run on a mutable object: how far it got, and the object then.\<close>

datatype 'a attempt = Done 'a | Threw 'a

definition swallow :: "'a attempt \<Rightarrow> 'a" where
  "swallow a = (case a of Done x \<Rightarrow> x | Threw x \<Rightarrow> x)"


definition MIN_VRAM_GB :: rat where
  "MIN_VRAM_GB = 4"

definition findPython :: "host \<Rightarrow> path option" where
  "findPython h =
     (let candidates =
        (if hostPlatform h = ''win32''
         then [path_join [dataDir h, ''python'', ''python.exe''],
               path_join [dataDir h, ''venv'', ''Scripts'', ''python.exe''],
               path_join [backendDir h, ''venv'', ''Scripts'', ''python.exe'']]
         else [path_join [dataDir h, ''venv'', ''bin'', ''python''],
               path_join [backendDir h, ''venv'', ''bin'', ''python'']])
      in case filter (\<lambda>p. files h p \<noteq> None) candidates of [] \<Rightarrow> None | p # ps \<Rightarrow> Some p)"

definition pythonCheck :: "host \<Rightarrow> systemInfo \<Rightarrow> systemInfo attempt" where
  "pythonCheck h info =
     (case findPython h of
        None \<Rightarrow> Done info
      | Some pythonPath \<Rightarrow>
          (case execSync h (''\"'' @ pythonPath @ ''\" --version'') of
             None \<Rightarrow> Threw info
           | Some version \<Rightarrow>
               Done (info\<lparr>hasPython := True,
                          pythonVersion := Some (trim (replace_first version (ustr ''Python '') []))\<rparr>)))"

definition gpuNameCmd :: string where
  "gpuNameCmd = ''nvidia-smi --query-gpu=name --format=csv,noheader''"

definition gpuVramCmd :: string where
  "gpuVramCmd = ''nvidia-smi --query-gpu=memory.total --format=csv,noheader,nounits''"

definition gpuCheck :: "host \<Rightarrow> systemInfo \<Rightarrow> systemInfo attempt" where
  "gpuCheck h info =
     (if hostPlatform h = ''win32'' then
        (case execSync h gpuNameCmd of
           None \<Rightarrow> Threw info
         | Some nameResult \<Rightarrow>
             if trim nameResult \<noteq> [] then
               (let info1 = info\<lparr>hasNvidiaGpu := True,
                                  gpuName := elem_at (split_on 0x0A (trim nameResult)) 0\<rparr>
                in case execSync h gpuVramCmd of
                     None \<Rightarrow> Threw info1
                   | Some vramResult \<Rightarrow>
                       (let vramMB = (case elem_at (split_on 0x0A (trim vramResult)) 0 of
                                        None \<Rightarrow> None | Some l \<Rightarrow> parseInt l);
                            vram = map_option (\<lambda>mb. of_int (Math_round (of_int mb / 1024 * 10)) / 10) vramMB
                        in Done (info1\<lparr>gpuVram := vram,
                                  hasEnoughVram := (case vram of None \<Rightarrow> False | Some v \<Rightarrow> MIN_VRAM_GB \<le> v)\<rparr>)))
             else Done info)
      else Done info)"

definition diskCmd :: "string \<Rightarrow> string" where
  "diskCmd drive = ''wmic logicaldisk where \"DeviceID='' @ [CHR 0x27] @ drive @ '':'' @ [CHR 0x27] @ ''\" get FreeSpace''"

definition diskCheck :: "host \<Rightarrow> systemInfo \<Rightarrow> systemInfo attempt" where
  "diskCheck h info =
     (if hostPlatform h = ''win32'' then
        (case elem_at (split_on (CHR '':'') (dataDir h)) 0 of
           None \<Rightarrow> Threw info
         | Some drive \<Rightarrow>
             (case execSync h (diskCmd drive) of
                None \<Rightarrow> Threw info
              | Some result \<Rightarrow>
                  (case elem_at (split_on 0x0A result) 1 of
                     None \<Rightarrow> Threw info
                   | Some line \<Rightarrow>
                       (case parseInt (trim line) of
                          None \<Rightarrow> Done (info\<lparr>availableSpace := ''NaN GB'', hasEnoughSpace := False\<rparr>)
                        | Some freeBytes \<Rightarrow>
                            (let freeGB = toFixed1 (of_int freeBytes / (1024 * 1024 * 1024))
                             in Done (info\<lparr>availableSpace := fixed1_text freeGB @ '' GB'',
                                        hasEnoughSpace := (of_int MIN_FREE_SPACE_GB \<le> fixed1_number freeGB)\<rparr>))))))
      else Done info)"

definition initialInfo :: "host \<Rightarrow> systemInfo" where
  "initialInfo h =
     \<lparr>platform = hostPlatform h, hasPython = False, pythonVersion = None,
      hasNvidiaGpu = False, gpuName = None, gpuVram = Some 0, hasEnoughVram = False,
      hasEnoughSpace = True, availableSpace = ''Unknown''\<rparr>"

definition checkSystem :: "host \<Rightarrow> systemInfo attempt" where
  "checkSystem h =
     (let info = initialInfo h;
          info = swallow (pythonCheck h info);
          info = swallow (gpuCheck h info);
          info = swallow (diskCheck h info)
      in Done info)"

text \<open>
  The disk check of the older copy \<^verbatim>\<open>electron/setup.js\<close>: the same probe, with the
  test \<^verbatim>\<open>freeGB > 5\<close>.
\<close>

definition diskCheck_legacy :: "host \<Rightarrow> systemInfo \<Rightarrow> systemInfo attempt" where
  "diskCheck_legacy h info =
     (if hostPlatform h = ''win32'' then
        (case elem_at (split_on (CHR '':'') (dataDir h)) 0 of
           None \<Rightarrow> Threw info
         | Some drive \<Rightarrow>
             (case execSync h (diskCmd drive) of
                None \<Rightarrow> Threw info
              | Some result \<Rightarrow>
                  (case elem_at (split_on 0x0A result) 1 of
                     None \<Rightarrow> Threw info
                   | Some line \<Rightarrow>
                       (case parseInt (trim line) of
                          None \<Rightarrow> Done (info\<lparr>availableSpace := ''NaN GB'', hasEnoughSpace := False\<rparr>)
                        | Some freeBytes \<Rightarrow>
                            (let freeGB = toFixed1 (of_int freeBytes / (1024 * 1024 * 1024))
                             in Done (info\<lparr>availableSpace := fixed1_text freeGB @ '' GB'',
                                        hasEnoughSpace := (5 < fixed1_number freeGB)\<rparr>))))))
      else Done info)"

text \<open>
  A Windows host for the examples: no Python installed, and \<^verbatim>\<open>execSync\<close> answering the
  three probes as given (\<open>None\<close>: the command fails).
\<close>

definition example_host :: "ustring option \<Rightarrow> ustring option \<Rightarrow> ustring option \<Rightarrow> host" where
  "example_host gpuNameOut gpuVramOut diskOut =
     \<lparr>hostPlatform = ''win32'', dataDir = ''C:/Users/u/VoiceCraft'', backendDir = ''C:/app/backend'',
      files = Map.empty,
      execSync = (\<lambda>c. if c = gpuNameCmd then gpuNameOut
                        else if c = gpuVramCmd then gpuVramOut
                        else if c = diskCmd ''C'' then diskOut
                        else None)\<rparr>"

definition wmic_output :: "string \<Rightarrow> ustring" where
  "wmic_output n = ustr ''FreeSpace  '' @ [0x0D, 0x0A] @ ustr n @ ustr ''  '' @ [0x0D, 0x0A]"

section \<open>Errors, the network and the manifest\<close>

text \<open>
  The errors the installer raises, one constructor for each message it builds; \<open>IOError\<close>
  stands for the error objects that sockets, streams and the file system hand over.
  \<open>ChecksumMismatch\<close> carries what the message carries: the file's base name and the
  first twelve characters of the expected and of the actual digest.
\<close>

datatype error =
    TypeError string
  | IOError string
  | ManifestHttpError nat
  | InvalidManifestJson string
  | DownloadHttpError nat
  | ConnectionTimedOut
  | ChecksumMismatch string string string
  | ExtractError string
  | CannotReachServer error
  | ArchiveNotFound string
  | SetupCancelled

text \<open>
  An HTTP exchange as the client sees it. \<open>chunks\<close> are the \<^verbatim>\<open>data\<close> events of the
  body, \<open>ending\<close> what follows them: \<^verbatim>\<open>end\<close>, an \<^verbatim>\<open>error\<close> event of the response, or
  nothing any more. \<open>contentLength\<close> is \<^verbatim>\<open>parseInt\<close> of the header (\<open>None\<close>:
  \<^verbatim>\<open>NaN\<close>). A request is answered by a response, fails with a socket error, is never
  answered, or cannot be made because the URL does not parse. The server sees the URL and
  the \<^verbatim>\<open>Range: bytes=n-\<close> header.

  \<open>idleTimer\<close> matters for a response that the code does not read, a redirect. The
  downloader arms a 30 s idle timer on the socket of every request; its callback rejects
  the promise of the whole download. While a response is left unread its request keeps
  the socket, so the timer stays armed after the redirect has been followed. There is no
  clock in the model: the field says when that timer fires, counted in the events of the
  download that happen first (an event is the answer to a later request, a chunk of a
  body, or the end of a body). \<open>None\<close>: the timer never fires, the server closes the
  connection. \<open>Some k\<close>: the connection stays open and idle, and the timer fires when
  \<open>k\<close> more events have happened, or when nothing more is going to happen.
\<close>

datatype ending = Finished | ResError string | Stalled

record response =
  statusCode :: nat
  location :: "string option"
  contentLength :: "nat option"
  chunks :: "string list"
  ending :: ending
  idleTimer :: "nat option"

datatype reply = BadUrl | SocketError string | NoReply | Response response

type_synonym network = "string \<Rightarrow> nat option \<Rightarrow> reply"

record archiveInfo =
  filename :: string
  size :: nat
  sha256 :: string

record manifest =
  version :: int
  buildDate :: string
  archives :: "string \<rightharpoonup> archiveInfo"

text \<open>
  \<^verbatim>\<open>_readJson\<close>: the body is collected and parsed at \<^verbatim>\<open>end\<close>. \<open>parse\<close> is
  \<^verbatim>\<open>JSON.parse\<close>, giving the manifest or the message of its \<^verbatim>\<open>SyntaxError\<close>.
\<close>

definition readJson :: "(string \<Rightarrow> string + manifest) \<Rightarrow> response \<Rightarrow> (error + manifest) option" where
  "readJson parse res =
     (case ending res of
        Finished \<Rightarrow>
          (case parse (concat (chunks res)) of
             Inl msg \<Rightarrow> Some (Inl (InvalidManifestJson msg))
           | Inr m \<Rightarrow> Some (Inr m))
      | ResError e \<Rightarrow> Some (Inl (IOError e))
      | Stalled \<Rightarrow> None)"

text \<open>
  \<^verbatim>\<open>fetchManifest\<close>. The first request is made in the promise's executor, where a throw
  rejects; what the response callback throws (a redirect without \<^verbatim>\<open>Location\<close>, or to
  a URL that does not parse) is caught by nobody, and the promise stays pending. There is
  no timeout.
\<close>

definition fetchManifest :: "network \<Rightarrow> (string \<Rightarrow> string + manifest) \<Rightarrow> (error + manifest) option" where
  "fetchManifest net parse =
     (case net (R2_BASE_URL @ ''/manifest.json'') None of
        BadUrl \<Rightarrow> Some (Inl (TypeError ''Invalid URL''))
      | SocketError e \<Rightarrow> Some (Inl (IOError e))
      | NoReply \<Rightarrow> None
      | Response res \<Rightarrow>
          if statusCode res = 301 \<or> statusCode res = 302 then
            (case location res of
               None \<Rightarrow> None
             | Some loc \<Rightarrow>
                 (case net loc None of
                    BadUrl \<Rightarrow> None
                  | SocketError e \<Rightarrow> Some (Inl (IOError e))
                  | NoReply \<Rightarrow> None
                  | Response redirectRes \<Rightarrow> readJson parse redirectRes))
          else if statusCode res \<noteq> 200 then Some (Inl (ManifestHttpError (statusCode res)))
          else readJson parse res)"

section \<open>The resumable downloader\<close>

text \<open>
  The \<^verbatim>\<open>data\<close> handler: \<^verbatim>\<open>downloaded\<close> grows by each chunk and the callback is given
  \<^verbatim>\<open>(downloaded, totalSize)\<close>. The callback's invocations are returned as a list, in
  order.
\<close>

fun progress_calls :: "nat \<Rightarrow> nat \<Rightarrow> string list \<Rightarrow> (nat \<times> nat) list" where
  "progress_calls downloaded totalSize [] = []"
| "progress_calls downloaded totalSize (chunk # rest) =
     (downloaded + length chunk, totalSize) # progress_calls (downloaded + length chunk) totalSize rest"

datatype flags = Append | Truncate

text \<open>Lines 224 to 231: the start byte after the status is seen, and the flags of the write stream.\<close>

definition startByte_after :: "nat \<Rightarrow> nat \<Rightarrow> nat" where
  "startByte_after status startByte = (if status = 200 then 0 else startByte)"

definition write_flags :: "nat \<Rightarrow> nat \<Rightarrow> flags" where
  "write_flags status startByte = (if startByte > 0 \<and> status = 206 then Append else Truncate)"

text \<open>
  The response callback on a response that is not a redirect. \<open>writeError\<close> is the
  error the write stream raises, if it raises one. The result is the promise's outcome,
  the files, and the callback's invocations.
\<close>

definition onResponse ::
  "string option \<Rightarrow> path \<Rightarrow> path \<Rightarrow> nat \<Rightarrow> nat \<Rightarrow> response \<Rightarrow> filesys
     \<Rightarrow> (error + unit) \<times> filesys \<times> (nat \<times> nat) list" where
  "onResponse writeError partialPath destPath expectedSize startByte0 res fs =
     (if statusCode res \<noteq> 200 \<and> statusCode res \<noteq> 206
      then (Inl (DownloadHttpError (statusCode res)), fs, [])
      else
        (let startByte = startByte_after (statusCode res) startByte0;
             flags = write_flags (statusCode res) startByte;
             totalSize = (if expectedSize \<noteq> 0 then Some expectedSize
                          else map_option (\<lambda>n. n + startByte) (contentLength res));
             calls = (case totalSize of
                        None \<Rightarrow> []
                      | Some t \<Rightarrow> if t \<noteq> 0 then progress_calls startByte t (chunks res) else []);
             old = (case flags of
                      Append \<Rightarrow> (case fs partialPath of None \<Rightarrow> [] | Some p \<Rightarrow> p)
                    | Truncate \<Rightarrow> []);
             fs1 = fs(partialPath \<mapsto> old @ concat (chunks res))
         in case writeError of
              Some e \<Rightarrow> (Inl (IOError e), fs, calls)
            | None \<Rightarrow>
                (case ending res of
                   Finished \<Rightarrow>
                     (Inr (), (fs1(partialPath := None))(destPath \<mapsto> old @ concat (chunks res)), calls)
                 | ResError e \<Rightarrow> (Inl (IOError e), fs1, calls)
                 | Stalled \<Rightarrow> (Inl ConnectionTimedOut, fs1, calls))))"

text \<open>
  A pending timer of an earlier hop, as \<^verbatim>\<open>makeRequest\<close> carries it along: \<open>None\<close>
  when no such timer is armed, \<open>Some k\<close> when the first of them fires after \<open>k\<close> more
  events. \<open>tick\<close> is the timer after one event, \<open>earliest\<close> the first of two timers.
  A timer that fires while a body is read rejects the promise after the chunks that came
  before it; what the callback has done by then is what it does on a response that stalls
  after those chunks (\<open>curtail\<close>).
\<close>

definition tick :: "nat option \<Rightarrow> nat option" where
  "tick timer = map_option (\<lambda>k. k - 1) timer"

definition earliest :: "nat option \<Rightarrow> nat option \<Rightarrow> nat option" where
  "earliest a b =
     (case a of
        None \<Rightarrow> b
      | Some x \<Rightarrow> (case b of None \<Rightarrow> Some x | Some y \<Rightarrow> Some (min x y)))"

definition curtail :: "nat option \<Rightarrow> response \<Rightarrow> response" where
  "curtail timer res =
     (case timer of
        None \<Rightarrow> res
      | Some k \<Rightarrow>
          if k \<le> length (chunks res) then res\<lparr>chunks := take k (chunks res), ending := Stalled\<rparr>
          else res)"

text \<open>
  \<^verbatim>\<open>makeRequest\<close>: a redirect is followed by calling \<^verbatim>\<open>makeRequest\<close> again with the
  \<^verbatim>\<open>Location\<close> header, the headers unchanged; no hop is counted, and the redirect
  response is not read. A request that is not answered within the idle timeout rejects,
  and so does the timer of an earlier hop when it fires first (\<open>timer = Some 0\<close>). What
  the callback throws (a redirect without \<^verbatim>\<open>Location\<close>, or to a URL that does not
  parse) is caught by nobody: the promise stays pending, until a timer that is still armed
  fires. The result is the promise's outcome with the files and the callback's
  invocations at that moment; the requests of later hops that may still be running then
  are not followed further.
\<close>

partial_function (option) makeRequest ::
  "network \<Rightarrow> string option \<Rightarrow> nat option \<Rightarrow> path \<Rightarrow> path \<Rightarrow> nat \<Rightarrow> nat \<Rightarrow> filesys \<Rightarrow> nat option \<Rightarrow> string
     \<Rightarrow> ((error + unit) \<times> filesys \<times> (nat \<times> nat) list) option" where
  "makeRequest net writeError rangeHdr partialPath destPath expectedSize startByte fs timer requestUrl =
     (if timer = Some 0 then Some (Inl ConnectionTimedOut, fs, [])
      else
        (case net requestUrl rangeHdr of
           BadUrl \<Rightarrow> if timer = None then None else Some (Inl ConnectionTimedOut, fs, [])
         | SocketError e \<Rightarrow> Some (Inl (IOError e), fs, [])
         | NoReply \<Rightarrow> Some (Inl ConnectionTimedOut, fs, [])
         | Response res \<Rightarrow>
             if statusCode res = 301 \<or> statusCode res = 302 then
               (case location res of
                  None \<Rightarrow>
                    if earliest (tick timer) (idleTimer res) = None then None
                    else Some (Inl ConnectionTimedOut, fs, [])
                | Some loc \<Rightarrow>
                    makeRequest net writeError rangeHdr partialPath destPath expectedSize startByte fs
                      (earliest (tick timer) (idleTimer res)) loc)
             else Some (onResponse writeError partialPath destPath expectedSize startByte
                          (curtail (tick timer) res) fs)))"

text \<open>
  \<^verbatim>\<open>downloadFileWithResume\<close>. A missing or zero \<^verbatim>\<open>expectedSize\<close> is falsy, hence
  \<open>expectedSize \<noteq> 0\<close>. The first \<^verbatim>\<open>makeRequest\<close> runs in the promise's executor, where
  a URL that does not parse rejects; no timer is armed yet.
\<close>

definition downloadFileWithResume ::
  "network \<Rightarrow> string option \<Rightarrow> string \<Rightarrow> path \<Rightarrow> nat \<Rightarrow> filesys
     \<Rightarrow> ((error + unit) \<times> filesys \<times> (nat \<times> nat) list) option" where
  "downloadFileWithResume net writeError url destPath expectedSize fs =
     (let partialPath = destPath @ ''.partial'';
          startByte = (case fs partialPath of None \<Rightarrow> 0 | Some p \<Rightarrow> length p)
      in if fs partialPath \<noteq> None \<and> expectedSize \<noteq> 0 \<and> startByte \<ge> expectedSize
         then Some (Inr (), (fs(partialPath := None))(destPath := fs partialPath), [])
         else
           (let rangeHdr = (if startByte > 0 then Some startByte else None)
            in case net url rangeHdr of
                 BadUrl \<Rightarrow> Some (Inl (TypeError ''Invalid URL''), fs, [])
               | _ \<Rightarrow> makeRequest net writeError rangeHdr partialPath destPath expectedSize startByte fs None url))"

text \<open>
  Following redirects from a URL, with a timer pending or not, ends at a response that is
  not a redirect: \<open>reaches\<close> gives the responses that \<^verbatim>\<open>makeRequest\<close> hands to the rest
  of the callback, as the callback sees them before the promise is settled. \<open>answers\<close>
  is the same for a download, which starts with no timer armed.
\<close>

inductive reaches :: "network \<Rightarrow> nat option \<Rightarrow> nat option \<Rightarrow> string \<Rightarrow> response \<Rightarrow> bool"
  for net :: network and rangeHdr :: "nat option" where
  direct:
    "timer \<noteq> Some 0 \<Longrightarrow> net url rangeHdr = Response res
       \<Longrightarrow> statusCode res \<noteq> 301 \<Longrightarrow> statusCode res \<noteq> 302
       \<Longrightarrow> reaches net rangeHdr timer url (curtail (tick timer) res)"
| redirected:
    "timer \<noteq> Some 0 \<Longrightarrow> net url rangeHdr = Response r \<Longrightarrow> statusCode r = 301 \<or> statusCode r = 302
       \<Longrightarrow> location r = Some loc \<Longrightarrow> reaches net rangeHdr (earliest (tick timer) (idleTimer r)) loc res
       \<Longrightarrow> reaches net rangeHdr timer url res"

definition answers :: "network \<Rightarrow> nat option \<Rightarrow> string \<Rightarrow> response \<Rightarrow> bool" where
  "answers net rangeHdr url res = reaches net rangeHdr None url res"

text \<open>
  Following the redirects from a URL comes to a redirect whose connection stays open, so
  that the idle timer of its request is going to fire.
\<close>

inductive idles :: "network \<Rightarrow> nat option \<Rightarrow> string \<Rightarrow> bool"
  for net :: network and rangeHdr :: "nat option" where
  here:
    "net url rangeHdr = Response r \<Longrightarrow> statusCode r = 301 \<or> statusCode r = 302
       \<Longrightarrow> idleTimer r \<noteq> None \<Longrightarrow> idles net rangeHdr url"
| later:
    "net url rangeHdr = Response r \<Longrightarrow> statusCode r = 301 \<or> statusCode r = 302
       \<Longrightarrow> location r = Some loc \<Longrightarrow> idles net rangeHdr loc \<Longrightarrow> idles net rangeHdr url"

text \<open>Example servers.\<close>

definition plain_response :: "nat \<Rightarrow> string \<Rightarrow> response" where
  "plain_response status body =
     \<lparr>statusCode = status, location = None, contentLength = Some (length body),
      chunks = [body], ending = Finished, idleTimer = None\<rparr>"

definition redirect_response :: "nat \<Rightarrow> string \<Rightarrow> response" where
  "redirect_response status loc =
     \<lparr>statusCode = status, location = Some loc, contentLength = Some 0,
      chunks = [], ending = Finished, idleTimer = None\<rparr>"

text \<open>
  The manifest URL redirects to a mirror, and the mirror answers 404 with the given body.
\<close>

definition mirror_404_net :: "string \<Rightarrow> network" where
  "mirror_404_net body url rangeHdr =
     (if url = R2_BASE_URL @ ''/manifest.json''
        then Response (redirect_response 302 ''https://mirror.example/manifest.json'')
      else if url = ''https://mirror.example/manifest.json''
        then Response (plain_response 404 body)
      else NoReply)"

definition direct_404_net :: network where
  "direct_404_net url rangeHdr = Response (plain_response 404 ''Not Found'')"

text \<open>
  Two URLs that redirect to each other; \<open>timer\<close> is what becomes of the idle timer of
  each request.
\<close>

definition cycle_net :: "nat option \<Rightarrow> network" where
  "cycle_net timer url rangeHdr =
     (if url = ''https://a.example/f.zip''
        then Response ((redirect_response 302 ''https://b.example/f.zip'')\<lparr>idleTimer := timer\<rparr>)
      else if url = ''https://b.example/f.zip''
        then Response ((redirect_response 301 ''https://a.example/f.zip'')\<lparr>idleTimer := timer\<rparr>)
      else NoReply)"

text \<open>A parser for the examples: it reads one text as the empty manifest and rejects the rest.\<close>

definition example_parse :: "string \<Rightarrow> string + manifest" where
  "example_parse text =
     (if text = ''{\"version\":1,\"buildDate\":\"\",\"archives\":{}}''
      then Inr \<lparr>version = 1, buildDate = '''', archives = Map.empty\<rparr>
      else Inl ''Unexpected token'')"

text \<open>
  A server that holds the bytes \<open>A\<close> under every URL and honours \<^verbatim>\<open>Range\<close>, and one
  that ignores \<^verbatim>\<open>Range\<close> and always sends the whole body with status 200.
\<close>

definition range_net :: "string \<Rightarrow> network" where
  "range_net A url rangeHdr =
     (case rangeHdr of
        None \<Rightarrow> Response (plain_response 200 A)
      | Some k \<Rightarrow> Response (plain_response 206 (drop k A)))"

definition full_net :: "string \<Rightarrow> network" where
  "full_net A url rangeHdr = Response (plain_response 200 A)"

text \<open>The file that a download leaves at a path, with the promise's outcome.\<close>

definition outcome_and_file ::
  "path \<Rightarrow> ((error + unit) \<times> filesys \<times> (nat \<times> nat) list) option \<Rightarrow> ((error + unit) \<times> string option) option" where
  "outcome_and_file p r = map_option (\<lambda>x. (fst x, fst (snd x) p)) r"

section \<open>SHA-256\<close>

text \<open>
  \<^verbatim>\<open>crypto.createHash('sha256')\<close>, fed the file's bytes and read with
  \<^verbatim>\<open>digest('hex')\<close>: the SHA-256 of FIPS 180-4, on 32-bit words kept as integers below
  \<open>2 ^ 32\<close>, and its digest as 64 lower-case hexadecimal digits. The rounds run over
  the list of round constants with a window of the sixteen latest schedule words.
\<close>

definition add32 :: "int \<Rightarrow> int \<Rightarrow> int" where
  "add32 x y = (x + y) mod 4294967296"

definition rotr :: "nat \<Rightarrow> int \<Rightarrow> int" where
  "rotr n x = x div 2 ^ n + (x mod 2 ^ n) * 2 ^ (32 - n)"

definition shr :: "nat \<Rightarrow> int \<Rightarrow> int" where
  "shr n x = x div 2 ^ n"

definition Ch :: "int \<Rightarrow> int \<Rightarrow> int \<Rightarrow> int" where
  "Ch x y z = (x AND y) XOR ((4294967295 - x) AND z)"

definition Maj :: "int \<Rightarrow> int \<Rightarrow> int \<Rightarrow> int" where
  "Maj x y z = (x AND y) XOR (x AND z) XOR (y AND z)"

definition bsig0 :: "int \<Rightarrow> int" where
  "bsig0 x = rotr 2 x XOR rotr 13 x XOR rotr 22 x"

definition bsig1 :: "int \<Rightarrow> int" where
  "bsig1 x = rotr 6 x XOR rotr 11 x XOR rotr 25 x"

definition ssig0 :: "int \<Rightarrow> int" where
  "ssig0 x = rotr 7 x XOR rotr 18 x XOR shr 3 x"

definition ssig1 :: "int \<Rightarrow> int" where
  "ssig1 x = rotr 17 x XOR rotr 19 x XOR shr 10 x"

definition K256 :: "int list" where
  "K256 =
     [1116352408, 1899447441, 3049323471, 3921009573, 961987163, 1508970993,
      2453635748, 2870763221, 3624381080, 310598401, 607225278, 1426881987,
      1925078388, 2162078206, 2614888103, 3248222580, 3835390401, 4022224774,
      264347078, 604807628, 770255983, 1249150122, 1555081692, 1996064986,
      2554220882, 2821834349, 2952996808, 3210313671, 3336571891, 3584528711,
      113926993, 338241895, 666307205, 773529912, 1294757372, 1396182291,
      1695183700, 1986661051, 2177026350, 2456956037, 2730485921, 2820302411,
      3259730800, 3345764771, 3516065817, 3600352804, 4094571909, 275423344,
      430227734, 506948616, 659060556, 883997877, 958139571, 1322822218,
      1537002063, 1747873779, 1955562222, 2024104815, 2227730452, 2361852424,
      2428436474, 2756734187, 3204031479, 3329325298]"

type_synonym hstate = "int \<times> int \<times> int \<times> int \<times> int \<times> int \<times> int \<times> int"

definition H0 :: hstate where
  "H0 = (1779033703, 3144134277, 1013904242, 2773480762, 1359893119, 2600822924, 528734635, 1541459225)"

definition len_bytes :: "nat \<Rightarrow> int list" where
  "len_bytes n =
     (let bits = int (8 * n)
      in [bits div 72057594037927936 mod 256, bits div 281474976710656 mod 256,
          bits div 1099511627776 mod 256, bits div 4294967296 mod 256,
          bits div 16777216 mod 256, bits div 65536 mod 256, bits div 256 mod 256, bits mod 256])"

definition pad :: "int list \<Rightarrow> int list" where
  "pad m = m @ [128] @ replicate ((119 - length m mod 64) mod 64) 0 @ len_bytes (length m)"

fun words_of :: "int list \<Rightarrow> int list" where
  "words_of (a # b # c # d # r) = (((a * 256 + b) * 256 + c) * 256 + d) # words_of r"
| "words_of r = []"

definition next_w :: "int list \<Rightarrow> int" where
  "next_w w = add32 (add32 (ssig1 (w ! 14)) (w ! 9)) (add32 (ssig0 (w ! 1)) (w ! 0))"

fun round1 :: "int \<Rightarrow> int \<Rightarrow> hstate \<Rightarrow> hstate" where
  "round1 k w (a, b, c, d, e, f, g, h) =
     (let t1 = add32 (add32 (add32 h (bsig1 e)) (add32 (Ch e f g) k)) w;
          t2 = add32 (bsig0 a) (Maj a b c)
      in (add32 t1 t2, a, b, c, add32 d t1, e, f, g))"

fun rounds :: "int list \<Rightarrow> int list \<Rightarrow> hstate \<Rightarrow> hstate" where
  "rounds [] w s = s"
| "rounds (k # ks) w s = rounds ks (tl w @ [next_w w]) (round1 k (hd w) s)"

fun hadd :: "hstate \<Rightarrow> hstate \<Rightarrow> hstate" where
  "hadd (a, b, c, d, e, f, g, h) (a', b', c', d', e', f', g', h') =
     (add32 a a', add32 b b', add32 c c', add32 d d', add32 e e', add32 f f', add32 g g', add32 h h')"

definition compress :: "hstate \<Rightarrow> int list \<Rightarrow> hstate" where
  "compress hs blk = hadd hs (rounds K256 blk hs)"

fun blocks :: "nat \<Rightarrow> int list \<Rightarrow> hstate \<Rightarrow> hstate" where
  "blocks 0 ws hs = hs"
| "blocks (Suc n) ws hs = blocks n (drop 16 ws) (compress hs (take 16 ws))"

definition hexdigit :: "int \<Rightarrow> char" where
  "hexdigit n = ''0123456789abcdef'' ! nat (n mod 16)"

definition hex32 :: "int \<Rightarrow> string" where
  "hex32 w =
     [hexdigit (w div 268435456), hexdigit (w div 16777216), hexdigit (w div 1048576),
      hexdigit (w div 65536), hexdigit (w div 4096), hexdigit (w div 256), hexdigit (w div 16),
      hexdigit w]"

fun hex_state :: "hstate \<Rightarrow> string" where
  "hex_state (a, b, c, d, e, f, g, h) =
     hex32 a @ hex32 b @ hex32 c @ hex32 d @ hex32 e @ hex32 f @ hex32 g @ hex32 h"

definition sha256_hex :: "string \<Rightarrow> string" where
  "sha256_hex s =
     (let ws = words_of (pad (map of_char s))
      in hex_state (blocks (length ws div 16) ws H0))"

section \<open>The integrity verifier\<close>

text \<open>\<^verbatim>\<open>path.basename\<close>: what follows the last separator.\<close>

definition basename :: "path \<Rightarrow> string" where
  "basename p = rev (takeWhile (\<lambda>c. c \<noteq> CHR ''/'' \<and> c \<noteq> CHR 0x5C) (rev p))"

text \<open>
  \<^verbatim>\<open>verifyChecksum\<close>: the read stream's error when the file cannot be read, else the
  digest compared with \<^verbatim>\<open>===\<close>. \<^verbatim>\<open>slice(0, 12)\<close> is \<open>take 12\<close>.
\<close>

definition verifyChecksum :: "filesys \<Rightarrow> path \<Rightarrow> string \<Rightarrow> error + bool" where
  "verifyChecksum fs filePath expectedSha256 =
     (case fs filePath of
        None \<Rightarrow> Inl (IOError ''ENOENT'')
      | Some bytes \<Rightarrow>
          (let actual = sha256_hex bytes
           in if actual = expectedSha256 then Inr True
              else Inl (ChecksumMismatch (basename filePath) (take 12 expectedSha256) (take 12 actual))))"

section \<open>The setup orchestrator\<close>

text \<open>
  What the orchestrator is given besides its arguments: the data directory
  (\<^verbatim>\<open>app.getPath('userData')\<close>), the network, the error a write stream on a path raises
  (if any), \<^verbatim>\<open>JSON.parse\<close> on the manifest's text, \<^verbatim>\<open>JSON.stringify\<close> on the marker,
  the clock, the two unpacking tools (the entries they write for an archive's bytes, or
  \<open>None\<close> when the command fails), whether the window can be sent to at the n-th call of
  \<^verbatim>\<open>sendProgress\<close>, whether \<^verbatim>\<open>abort()\<close> has been called when the i-th archive is
  about to start, and how \<^verbatim>\<open>fs.writeFileSync\<close> and \<^verbatim>\<open>fs.readFileSync\<close> fail on a
  path, if they do. \<^verbatim>\<open>fs.writeFileSync\<close> opens the file for writing, which creates or
  empties it, writes the content and closes the file, and throws when one of these fails:
  \<open>Refused\<close> is a file that cannot be opened, nothing changes; \<open>Torn n\<close> is a write
  that fails when the file has been opened and \<open>n\<close> bytes of the content are in it.
\<close>

datatype fault = Refused | Torn nat

record env =
  userData :: path
  network :: network
  writeErrorOf :: "path \<Rightarrow> string option"
  parseManifest :: "string \<Rightarrow> string + manifest"
  stringify :: "marker \<Rightarrow> string"
  now :: string
  tar :: "string \<Rightarrow> (string \<times> string) list option"
  expandArchive :: "string \<Rightarrow> (string \<times> string) list option"
  windowUsable :: "nat \<Rightarrow> bool"
  abortRequested :: "nat \<Rightarrow> bool"
  writeFault :: "path \<Rightarrow> fault option"
  readFails :: "path \<Rightarrow> bool"

text \<open>
  A progress event, without its message and log texts. The state of a run: the files,
  the events sent to the window, the number of \<^verbatim>\<open>sendProgress\<close> calls, and two logs
  kept for the statements below: the invocations of the download callback, and what
  the \<^verbatim>\<open>writeFileSync\<close> calls have written.
\<close>

record progress =
  stage :: string
  percent :: int

record state =
  disk :: filesys
  events :: "progress list"
  nsend :: nat
  cbcalls :: "(nat \<times> nat) list"
  writes :: "(path \<times> string) list"

definition sendProgress :: "env \<Rightarrow> string \<Rightarrow> int \<Rightarrow> state \<Rightarrow> state" where
  "sendProgress e stg pct st =
     st\<lparr>nsend := nsend st + 1,
        events := (if windowUsable e (nsend st) then events st @ [\<lparr>stage = stg, percent = pct\<rparr>]
                   else events st)\<rparr>"

definition writeFileSync :: "env \<Rightarrow> path \<Rightarrow> string \<Rightarrow> state \<Rightarrow> (error + unit) \<times> state" where
  "writeFileSync e p content st =
     (case writeFault e p of
        None \<Rightarrow>
          (Inr (), st\<lparr>disk := (disk st)(p \<mapsto> content), writes := writes st @ [(p, content)]\<rparr>)
      | Some Refused \<Rightarrow> (Inl (IOError ''writeFileSync''), st)
      | Some (Torn n) \<Rightarrow>
          (Inl (IOError ''writeFileSync''),
           st\<lparr>disk := (disk st)(p \<mapsto> take n content), writes := writes st @ [(p, take n content)]\<rparr>))"

definition unlinkSync :: "path \<Rightarrow> state \<Rightarrow> state" where
  "unlinkSync p st = st\<lparr>disk := (disk st)(p := None)\<rparr>"

text \<open>
  \<^verbatim>\<open>extractZip\<close>: \<^verbatim>\<open>tar.exe\<close>, and PowerShell when it fails; the error of the second
  command is thrown. The tools read the archive and write its entries under
  \<^verbatim>\<open>destDir\<close>.
\<close>

definition unpack :: "path \<Rightarrow> (string \<times> string) list \<Rightarrow> state \<Rightarrow> state" where
  "unpack destDir entries st =
     st\<lparr>disk := fold (\<lambda>entry f. f(path_join [destDir, fst entry] \<mapsto> snd entry)) entries (disk st)\<rparr>"

definition extractZip :: "env \<Rightarrow> path \<Rightarrow> path \<Rightarrow> state \<Rightarrow> (error + unit) \<times> state" where
  "extractZip e zipPath destDir st =
     (case (case disk st zipPath of None \<Rightarrow> None | Some bytes \<Rightarrow> tar e bytes) of
        Some entries \<Rightarrow> (Inr (), unpack destDir entries st)
      | None \<Rightarrow>
          (case (case disk st zipPath of None \<Rightarrow> None | Some bytes \<Rightarrow> expandArchive e bytes) of
             Some entries \<Rightarrow> (Inr (), unpack destDir entries st)
           | None \<Rightarrow> (Inl (ExtractError ''Expand-Archive''), st)))"

text \<open>The download callback of \<^verbatim>\<open>downloadAndInstallArchive\<close>.\<close>

definition progressCb :: "env \<Rightarrow> string \<Rightarrow> int \<Rightarrow> int \<Rightarrow> nat \<times> nat \<Rightarrow> state \<Rightarrow> state" where
  "progressCb e uiStage progressStart progressEnd call st =
     (let dlPct = (of_nat (fst call) :: rat) / of_nat (snd call);
          pct = of_int progressStart + (dlPct * of_int (progressEnd - progressStart) * (7 / 10))
      in sendProgress e uiStage (Math_round pct) (st\<lparr>cbcalls := cbcalls st @ [call]\<rparr>))"

definition downloadAndInstallArchive ::
  "env \<Rightarrow> archiveInfo \<Rightarrow> string \<Rightarrow> int \<Rightarrow> int \<Rightarrow> string \<Rightarrow> state \<Rightarrow> ((error + unit) \<times> state) option" where
  "downloadAndInstallArchive e archiveInfo archiveKey progressStart progressEnd uiStage st =
     (let zipPath = path_join [userData e, filename archiveInfo];
          st1 = sendProgress e uiStage progressStart st
      in case downloadFileWithResume (network e) (writeErrorOf e (zipPath @ ''.partial''))
                (R2_BASE_URL @ ''/'' @ filename archiveInfo) zipPath (size archiveInfo) (disk st1) of
           None \<Rightarrow> None
         | Some (res, fs', calls) \<Rightarrow>
             (let st2 = fold (progressCb e uiStage progressStart progressEnd) calls (st1\<lparr>disk := fs'\<rparr>)
              in case res of
                   Inl err \<Rightarrow> Some (Inl err, st2)
                 | Inr u \<Rightarrow>
                     (let verifyStart = (of_int progressStart :: rat) + of_int (progressEnd - progressStart) * (7 / 10);
                          st3 = sendProgress e uiStage (Math_round verifyStart) st2
                      in case verifyChecksum (disk st3) zipPath (sha256 archiveInfo) of
                           Inl checksumErr \<Rightarrow> Some (Inl checksumErr, unlinkSync zipPath st3)
                         | Inr ok \<Rightarrow>
                             (let extractStart = (of_int progressStart :: rat) + of_int (progressEnd - progressStart) * (8 / 10);
                                  st4 = sendProgress e uiStage (Math_round extractStart) st3
                              in case extractZip e zipPath (userData e) st4 of
                                   (Inl err, st5) \<Rightarrow> Some (Inl err, st5)
                                 | (Inr u', st5) \<Rightarrow>
                                     Some (Inr (), sendProgress e uiStage (Math_round (of_int progressEnd))
                                                     (unlinkSync zipPath st5))))))"

record options =
  model :: "string option"
  useGpu :: bool

record setupResult =
  success :: bool

definition archiveKeysFor :: "bool \<Rightarrow> manifest \<Rightarrow> string list" where
  "archiveKeysFor gpu m =
     [''python-core'']
     @ (if gpu then [''pytorch-nvidia-cu121'']
        else if archives m ''pytorch-cpu'' \<noteq> None then [''pytorch-cpu'']
        else [''pytorch-nvidia-cu121''])
     @ [''packages'', ''models-turbo'']"

text \<open>\<^verbatim>\<open>archiveStageMap[key]\<close>, or the default entry: the stage and the progress range.\<close>

definition archiveStage :: "string \<Rightarrow> string \<times> int \<times> int" where
  "archiveStage key =
     (if key = ''python-core'' then (''python'', 5, 25)
      else if key = ''pytorch-nvidia-cu121'' then (''dependencies'', 25, 55)
      else if key = ''pytorch-cpu'' then (''dependencies'', 25, 55)
      else if key = ''packages'' then (''dependencies'', 55, 70)
      else if key = ''models-turbo'' then (''model'', 70, 95)
      else (''dependencies'', 25, 70))"

text \<open>The loop over the archives, from index \<open>i\<close>; the abort flag is read first.\<close>

fun installArchives :: "env \<Rightarrow> manifest \<Rightarrow> nat \<Rightarrow> string list \<Rightarrow> state \<Rightarrow> ((error + unit) \<times> state) option" where
  "installArchives e m i [] st = Some (Inr (), st)"
| "installArchives e m i (key # keys) st =
     (if abortRequested e i then Some (Inl SetupCancelled, st)
      else case archives m key of
             None \<Rightarrow> Some (Inl (TypeError ''info is undefined''), st)
           | Some info \<Rightarrow>
               (case downloadAndInstallArchive e info key (fst (snd (archiveStage key)))
                       (snd (snd (archiveStage key))) (fst (archiveStage key)) st of
                  None \<Rightarrow> None
                | Some (Inl err, st') \<Rightarrow> Some (Inl err, st')
                | Some (Inr u, st') \<Rightarrow> installArchives e m (Suc i) keys st'))"

text \<open>
  Step 4: \<^verbatim>\<open>import site\<close> is uncommented in \<^verbatim>\<open>python310._pth\<close>. Reading the file
  and writing it back can throw. The file is read and written as UTF-8; finding and
  replacing an ASCII pattern does to the bytes what it does to the decoded text.
\<close>

definition fixPth :: "env \<Rightarrow> state \<Rightarrow> (error + unit) \<times> state" where
  "fixPth e st =
     (let pthFile = path_join [path_join [userData e, ''python''], ''python310._pth'']
      in case disk st pthFile of
           None \<Rightarrow> (Inr (), st)
         | Some content \<Rightarrow>
             if readFails e pthFile then (Inl (IOError ''readFileSync''), st)
             else if str_includes content ''#import site''
             then writeFileSync e pthFile (replace_first content ''#import site'' ''import site'') st
             else (Inr (), st))"

text \<open>
  The object written as the marker in step 5; \<^verbatim>\<open>options.model || 'turbo'\<close> takes
  \<^verbatim>\<open>'turbo'\<close> for a missing and for an empty model.
\<close>

definition completionMarker :: "env \<Rightarrow> options \<Rightarrow> manifest \<Rightarrow> marker" where
  "completionMarker e opts mf =
     \<lparr>setupVersion = Some SETUP_VERSION,
      model = (case model opts of None \<Rightarrow> ''turbo'' | Some s \<Rightarrow> if s = [] then ''turbo'' else s),
      useGpu = useGpu opts,
      manifestVersion = version mf,
      buildDate = buildDate mf,
      timestamp = now e\<rparr>"

text \<open>
  The body of the \<^verbatim>\<open>try\<close> block of \<^verbatim>\<open>runSetup\<close>, and \<^verbatim>\<open>runSetup\<close> with its
  \<^verbatim>\<open>catch\<close>. Writing the marker is the last statement that can throw.
\<close>

definition runSetup_try :: "env \<Rightarrow> options \<Rightarrow> state \<Rightarrow> ((error + setupResult) \<times> state) option" where
  "runSetup_try e opts st =
     (let st1 = sendProgress e ''python'' 2 st
      in case fetchManifest (network e) (parseManifest e) of
           None \<Rightarrow> None
         | Some (Inl err) \<Rightarrow> Some (Inl (CannotReachServer err), st1)
         | Some (Inr mf) \<Rightarrow>
             (let archiveKeys = archiveKeysFor (useGpu opts) mf
              in case filter (\<lambda>key. archives mf key = None) archiveKeys of
                   key # others \<Rightarrow> Some (Inl (ArchiveNotFound key), st1)
                 | [] \<Rightarrow>
                     (case installArchives e mf 0 archiveKeys st1 of
                        None \<Rightarrow> None
                      | Some (Inl err, st2) \<Rightarrow> Some (Inl err, st2)
                      | Some (Inr u, st2) \<Rightarrow>
                          (case fixPth e (sendProgress e ''model'' 96 st2) of
                             (Inl err, st4) \<Rightarrow> Some (Inl err, st4)
                           | (Inr u', st4) \<Rightarrow>
                               (case writeFileSync e (setupFlagPath (userData e))
                                       (stringify e (completionMarker e opts mf)) st4 of
                                  (Inl err, st5) \<Rightarrow> Some (Inl err, st5)
                                | (Inr u'', st5) \<Rightarrow>
                                    Some (Inr \<lparr>success = True\<rparr>, sendProgress e ''complete'' 100 st5))))))"

definition runSetup :: "env \<Rightarrow> options \<Rightarrow> state \<Rightarrow> ((error + setupResult) \<times> state) option" where
  "runSetup e opts st =
     (case runSetup_try e opts st of
        None \<Rightarrow> None
      | Some (Inl err, st') \<Rightarrow> Some (Inl err, sendProgress e ''error'' 0 st')
      | Some (Inr r, st') \<Rightarrow> Some (Inr r, st'))"

text \<open>
  An example installation: the manifest lists the same archive, of the given declared
  size and with the digest of its real bytes \<^verbatim>\<open>abc\<close>, under every key; the server
  sends the manifest and, under every other URL, the archive; the archive unpacks to the
  Python path file.
\<close>

definition example_manifest :: "nat \<Rightarrow> manifest" where
  "example_manifest declared =
     \<lparr>version = 1, buildDate = ''2024-01-01'',
      archives = (\<lambda>key. Some \<lparr>filename = ''a.zip'', size = declared,
                   sha256 = ''ba7816bf8f01cfea414140de5dae2223b00361a396177a9cb410ff61f20015ad''\<rparr>)\<rparr>"

definition example_net :: network where
  "example_net url rangeHdr =
     (if url = R2_BASE_URL @ ''/manifest.json'' then Response (plain_response 200 ''{}'')
      else Response (plain_response 200 ''abc''))"

definition example_env :: "nat \<Rightarrow> env" where
  "example_env declared =
     \<lparr>userData = ''C:/data'',
      network = example_net,
      writeErrorOf = (\<lambda>p. None),
      parseManifest = (\<lambda>text. Inr (example_manifest declared)),
      stringify = (\<lambda>m. ''{\"setupVersion\":2}''),
      now = ''2024-01-02T00:00:00.000Z'',
      tar = (\<lambda>bytes. Some [(''python/python310._pth'', ''#import site'')]),
      expandArchive = (\<lambda>bytes. None),
      windowUsable = (\<lambda>n. True),
      abortRequested = (\<lambda>i. False),
      writeFault = (\<lambda>p. None),
      readFails = (\<lambda>p. False)\<rparr>"

definition initial_state :: state where
  "initial_state = \<lparr>disk = Map.empty, events = [], nsend = 0, cbcalls = [], writes = []\<rparr>"

definition offline_env :: env where
  "offline_env = (example_env 3)\<lparr>network := (\<lambda>url rangeHdr. SocketError ''ENOTFOUND'')\<rparr>"


text \<open>The same installation when the window is closed after five progress calls.\<close>

definition closed_window_env :: env where
  "closed_window_env = (example_env 3)\<lparr>windowUsable := (\<lambda>n. n < 5)\<rparr>"

text \<open>
  The same installation when the disk is full at the end: the marker file is opened and
  nothing can be written to it. And an installation whose manifest names its archives
  \<^verbatim>\<open>.setup-complete\<close>, with unpacking tools that fail.
\<close>

definition full_disk_env :: env where
  "full_disk_env = (example_env 3)\<lparr>writeFault := (\<lambda>p. if p = ''C:/data/.setup-complete'' then Some (Torn 0) else None)\<rparr>"



text \<open>
  Three notions for the statements about progress. The percent the download callback
  sends for \<^verbatim>\<open>(downloaded, total)\<close>; the events so far are non-decreasing and none is
  above \<open>b\<close>; and the ranges of a list of archive keys follow each other from \<open>b\<close> up
  to \<open>bend\<close>.
\<close>

definition dlPercent :: "int \<Rightarrow> int \<Rightarrow> nat \<times> nat \<Rightarrow> int" where
  "dlPercent progressStart progressEnd call =
     Math_round (of_int progressStart
       + ((of_nat (fst call) :: rat) / of_nat (snd call)) * of_int (progressEnd - progressStart) * (7 / 10))"

definition rising_upto :: "int \<Rightarrow> state \<Rightarrow> bool" where
  "rising_upto b st = (sorted (map percent (events st)) \<and> list_all (\<lambda>ev. percent ev \<le> b) (events st))"

fun chained :: "int \<Rightarrow> string list \<Rightarrow> int \<Rightarrow> bool" where
  "chained b [] bend = (b \<le> bend)"
| "chained b (key # keys) bend =
     (b \<le> fst (snd (archiveStage key)) \<and> fst (snd (archiveStage key)) \<le> snd (snd (archiveStage key))
      \<and> chained (snd (snd (archiveStage key))) keys bend)"

text \<open>
  What the examples look at in the outcome of a run: the result, the percent values of
  the events sent, the invocations of the download callback, the file at a path, and the
  writes made to that path.
\<close>

definition run_summary ::
  "path \<Rightarrow> ((error + setupResult) \<times> state) option
     \<Rightarrow> ((error + setupResult) \<times> int list \<times> (nat \<times> nat) list \<times> string option \<times> (path \<times> string) list) option" where
  "run_summary p r =
     map_option (\<lambda>x. (fst x, map percent (events (snd x)), cbcalls (snd x), disk (snd x) p,
                       filter (\<lambda>w. fst w = p) (writes (snd x)))) r"



section \<open>The launch gate and the marker's version\<close>

lemma isSetupComplete_iff:
  "isSetupComplete parse d fs \<longleftrightarrow>
     (\<exists>text data v. fs (setupFlagPath d) = Some text \<and> parse text = Some data
        \<and> setupVersion data = Some v \<and> SETUP_VERSION \<le> v)"
  by (auto simp: isSetupComplete_def SETUP_VERSION_def split: option.splits)

lemma needsSetup_iff: "needsSetup d fs \<longleftrightarrow> fs (setupFlagPath d) = None"
  by (simp add: needsSetup_def setupFlagPath_def)

text \<open>
  C7. The claim: the gate that decides on launch whether setup re-runs looks at the
  marker's presence and at its \<^verbatim>\<open>setupVersion\<close>, so that a marker with an old version
  makes setup run again. The gate on launch is \<^verbatim>\<open>needsSetup\<close>, and it looks at presence
  only: with a marker of version 1 on disk (the constant is 2) \<^verbatim>\<open>needsSetup\<close> is false,
  setup is not re-run, while the installer's own \<^verbatim>\<open>isSetupComplete\<close> (never called by
  the gate) reports the same marker as not complete for every \<^verbatim>\<open>JSON.parse\<close> that reads
  the file as an object with \<^verbatim>\<open>setupVersion: 1\<close>.
\<close>

theorem needsSetup_ignores_version:
  "needsSetup ''C:/data'' [''C:/data/.setup-complete'' \<mapsto> ''{\"setupVersion\":1}''] = False
   \<and> isSetupComplete
        (\<lambda>text. if text = ''{\"setupVersion\":1}''
           then Some \<lparr>setupVersion = Some 1, model = '''', useGpu = False,
                  manifestVersion = 0, buildDate = '''', timestamp = ''''\<rparr>
           else None)
        ''C:/data'' [''C:/data/.setup-complete'' \<mapsto> ''{\"setupVersion\":1}''] = False"
  by (simp add: needsSetup_def isSetupComplete_def setupFlagPath_def SETUP_VERSION_def)

section \<open>The system prober: disk threshold and soft failure\<close>

lemma fixed1_number_ge_10:
  "(of_int MIN_FREE_SPACE_GB \<le> fixed1_number (toFixed1 (of_int b / (1024 * 1024 * 1024))))
     \<longleftrightarrow> 10683731149 \<le> b"
proof (cases "b < 0")
  case True
  then have "(of_int b :: rat) / (1024 * 1024 * 1024) < 0"
    by (simp add: divide_neg_pos)
  then have "fixed1_number (toFixed1 (of_int b / (1024 * 1024 * 1024))) \<le> 0"
    by (simp add: fixed1_number_def toFixed1_def)
  with True show ?thesis
    by (simp add: MIN_FREE_SPACE_GB_def)
next
  case False
  define x :: rat where "x = of_int b / (1024 * 1024 * 1024)"
  from False have x0: "0 \<le> x"
    by (simp add: x_def)
  then have fl0: "0 \<le> \<lfloor>x * 10 + 1 / 2\<rfloor>"
    by simp
  have "(10 \<le> fixed1_number (toFixed1 x)) \<longleftrightarrow> (100 :: rat) \<le> of_int \<lfloor>x * 10 + 1 / 2\<rfloor>"
    using x0 fl0 by (simp add: fixed1_number_def toFixed1_def)
  also have "\<dots> \<longleftrightarrow> (100 :: int) \<le> \<lfloor>x * 10 + 1 / 2\<rfloor>"
    by linarith
  also have "\<dots> \<longleftrightarrow> (100 :: rat) \<le> x * 10 + 1 / 2"
    by (simp add: le_floor_iff)
  also have "\<dots> \<longleftrightarrow> (213674622976 :: rat) \<le> of_int b * 20"
    by (simp add: x_def field_simps)
  also have "\<dots> \<longleftrightarrow> (213674622976 :: int) \<le> b * 20"
    by (metis (mono_tags) of_int_le_iff of_int_mult of_int_numeral)
  also have "\<dots> \<longleftrightarrow> 10683731149 \<le> b"
    by linarith
  finally show ?thesis
    by (simp add: x_def MIN_FREE_SPACE_GB_def)
qed

lemma fixed1_number_gt_5:
  "(5 < fixed1_number (toFixed1 (of_int b / (1024 * 1024 * 1024))))
     \<longleftrightarrow> 5422396212 \<le> b"
proof (cases "b < 0")
  case True
  then have "(of_int b :: rat) / (1024 * 1024 * 1024) < 0"
    by (simp add: divide_neg_pos)
  then have "fixed1_number (toFixed1 (of_int b / (1024 * 1024 * 1024))) \<le> 0"
    by (simp add: fixed1_number_def toFixed1_def)
  with True show ?thesis
    by simp
next
  case False
  define x :: rat where "x = of_int b / (1024 * 1024 * 1024)"
  from False have x0: "0 \<le> x"
    by (simp add: x_def)
  then have fl0: "0 \<le> \<lfloor>x * 10 + 1 / 2\<rfloor>"
    by simp
  have "(5 < fixed1_number (toFixed1 x)) \<longleftrightarrow> (50 :: rat) < of_int \<lfloor>x * 10 + 1 / 2\<rfloor>"
    using x0 fl0 by (simp add: fixed1_number_def toFixed1_def)
  also have "\<dots> \<longleftrightarrow> (51 :: int) \<le> \<lfloor>x * 10 + 1 / 2\<rfloor>"
    by linarith
  also have "\<dots> \<longleftrightarrow> (51 :: rat) \<le> x * 10 + 1 / 2"
    by (simp add: le_floor_iff)
  also have "\<dots> \<longleftrightarrow> (108447924224 :: rat) \<le> of_int b * 20"
    by (simp add: x_def field_simps)
  also have "\<dots> \<longleftrightarrow> (108447924224 :: int) \<le> b * 20"
    by (metis (mono_tags) of_int_le_iff of_int_mult of_int_numeral)
  also have "\<dots> \<longleftrightarrow> 5422396212 \<le> b"
    by linarith
  finally show ?thesis
    by (simp add: x_def)
qed



lemma diskCheck_probed:
  assumes "hostPlatform h = ''win32''"
    and "elem_at (split_on (CHR '':'') (dataDir h)) 0 = Some drive"
    and "execSync h (diskCmd drive) = Some result"
    and "elem_at (split_on 0x0A result) 1 = Some line"
    and "parseInt (trim line) = Some freeBytes"
  shows "hasEnoughSpace (swallow (diskCheck h i)) \<longleftrightarrow> 10683731149 \<le> freeBytes"
    and "hasEnoughSpace (swallow (diskCheck_legacy h i)) \<longleftrightarrow> 5422396212 \<le> freeBytes"
  using assms fixed1_number_ge_10 [of freeBytes] fixed1_number_gt_5 [of freeBytes]
  by (simp_all add: diskCheck_def diskCheck_legacy_def swallow_def Let_def)

lemma checkSystem_Done:
  "checkSystem h =
     Done (swallow (diskCheck h (swallow (gpuCheck h (swallow (pythonCheck h (initialInfo h)))))))"
  by (simp add: checkSystem_def)

text \<open>
  What the two disk checks compute, for every free-space value the probe reads (in bytes;
  the code's GB is \<open>1024 ^ 3\<close> bytes): the R2 installer reports \<^verbatim>\<open>hasEnoughSpace\<close>
  exactly from 9.95 GB on, the values that display as 10.0 GB or more, and the older copy
  exactly from 5.05 GB on, the values that display as more than 5.0 GB.
\<close>

lemma hasEnoughSpace_threshold:
  assumes "hostPlatform h = ''win32''"
    and "elem_at (split_on (CHR '':'') (dataDir h)) 0 = Some drive"
    and "execSync h (diskCmd drive) = Some result"
    and "elem_at (split_on 0x0A result) 1 = Some line"
    and "parseInt (trim line) = Some freeBytes"
  shows "(hasEnoughSpace (swallow (checkSystem h)) \<longleftrightarrow> 995 * (1024 * 1024 * 1024) \<le> 100 * freeBytes)
       \<and> (hasEnoughSpace (swallow (diskCheck_legacy h i)) \<longleftrightarrow> 505 * (1024 * 1024 * 1024) \<le> 100 * freeBytes)"
proof -
  have "hasEnoughSpace (swallow (checkSystem h)) \<longleftrightarrow> 10683731149 \<le> freeBytes"
    using diskCheck_probed(1) [OF assms] by (simp add: checkSystem_Done swallow_def)
  moreover have "hasEnoughSpace (swallow (diskCheck_legacy h i)) \<longleftrightarrow> 5422396212 \<le> freeBytes"
    using diskCheck_probed(2) [OF assms] .
  ultimately show ?thesis
    by linarith
qed

lemma example_host_probe:
  "hostPlatform (example_host a b (Some (wmic_output n))) = ''win32''"
  "elem_at (split_on (CHR '':'') (dataDir (example_host a b (Some (wmic_output n))))) 0 = Some ''C''"
  "execSync (example_host a b (Some (wmic_output n))) (diskCmd ''C'') = Some (wmic_output n)"
  by (simp_all add: example_host_def elem_at_def diskCmd_def gpuNameCmd_def gpuVramCmd_def)

lemma wmic_output_line:
  "10 \<notin> set (ustr n) \<Longrightarrow>
     elem_at (split_on 0x0A (wmic_output n)) 1 = Some (ustr n @ ustr ''  '' @ [0x0D])"
proof -
  have *: "c \<notin> set xs \<Longrightarrow> split_on c (xs @ c # r) = xs # split_on c r" for c :: nat and xs r
    by (induction xs) (auto split: list.splits)
  assume n: "10 \<notin> set (ustr n)"
  have "split_on 10 ((ustr n @ ustr ''  '' @ [0x0D]) @ 10 # []) = (ustr n @ ustr ''  '' @ [0x0D]) # split_on 10 []"
    by (rule *) (use n in \<open>simp add: ustr_def\<close>)
  moreover have "split_on 10 ((ustr ''FreeSpace  '' @ [0x0D]) @ 10 # r) = (ustr ''FreeSpace  '' @ [0x0D]) # split_on 10 r" for r
    by (rule *) (simp add: ustr_def)
  ultimately show ?thesis
    by (simp add: wmic_output_def elem_at_def)
qed

lemma example_disk_probe:
  assumes "10 \<notin> set (ustr n)" and "parseInt (trim (ustr n @ ustr ''  '' @ [0x0D])) = Some b"
  shows "hasEnoughSpace (swallow (checkSystem (example_host None None (Some (wmic_output n))))) \<longleftrightarrow> 10683731149 \<le> b"
    and "hasEnoughSpace (swallow (diskCheck_legacy (example_host None None (Some (wmic_output n))) i)) \<longleftrightarrow> 5422396212 \<le> b"
proof -
  note line = wmic_output_line [OF assms(1)]
  show "hasEnoughSpace (swallow (checkSystem (example_host None None (Some (wmic_output n))))) \<longleftrightarrow> 10683731149 \<le> b"
    using diskCheck_probed(1) [OF example_host_probe line assms(2)]
    by (simp add: checkSystem_Done swallow_def)
  show "hasEnoughSpace (swallow (diskCheck_legacy (example_host None None (Some (wmic_output n))) i)) \<longleftrightarrow> 5422396212 \<le> b"
    using diskCheck_probed(2) [OF example_host_probe line assms(2)] .
qed

text \<open>Three GB free: both copies report too little space.\<close>

lemma hasEnoughSpace_three_GB:
  "\<not> hasEnoughSpace (swallow (checkSystem (example_host None None (Some (wmic_output ''3221225472'')))))
   \<and> \<not> hasEnoughSpace (swallow (diskCheck_legacy (example_host None None (Some (wmic_output ''3221225472''))) i))"
proof -
  have num: "parseInt (trim (ustr ''3221225472'' @ ustr ''  '' @ [0x0D])) = Some 3221225472"
    by (simp add: parseInt_def trim_def is_space_def digit_of_def ustr_def)
  show ?thesis
    using example_disk_probe [OF _ num] by (simp add: ustr_def)
qed

text \<open>
  C8. The claim: \<^verbatim>\<open>hasEnoughSpace\<close> is true exactly when the free space is at least
  the 10 GB minimum. The R2 installer has the constant \<^verbatim>\<open>MIN_FREE_SPACE_GB = 10\<close>
  (``minimum free disk space required''), and compares with it not the free space but
  the string that \<^verbatim>\<open>toFixed(1)\<close> made for display: with 10683731149 bytes free, less
  than \<open>10 * 1024 ^ 3\<close>, the free space displays as \<^verbatim>\<open>10.0 GB\<close> and
  \<^verbatim>\<open>hasEnoughSpace\<close> is true. The older copy tests \<^verbatim>\<open>freeGB > 5\<close> under the comment
  ``need at least 5GB'': with 6 GB free it reports enough space, and with exactly 5 GB
  free it reports too little.
\<close>

theorem checkSystem_hasEnoughSpace_below_minimum:
  "hasEnoughSpace (swallow (checkSystem (example_host None None (Some (wmic_output ''10683731149'')))))
   \<and> availableSpace (swallow (checkSystem (example_host None None (Some (wmic_output ''10683731149''))))) = ''10.0 GB''
   \<and> (10683731149 :: int) < MIN_FREE_SPACE_GB * (1024 * 1024 * 1024)
   \<and> hasEnoughSpace (swallow (diskCheck_legacy (example_host None None (Some (wmic_output ''6442450944'')))
         (initialInfo (example_host None None (Some (wmic_output ''6442450944''))))))
   \<and> (6442450944 :: int) = 6 * (1024 * 1024 * 1024)
   \<and> \<not> hasEnoughSpace (swallow (diskCheck_legacy (example_host None None (Some (wmic_output ''5368709120'')))
         (initialInfo (example_host None None (Some (wmic_output ''5368709120''))))))
   \<and> (5368709120 :: int) = 5 * (1024 * 1024 * 1024)"
proof -
  have n1: "parseInt (trim (ustr ''10683731149'' @ ustr ''  '' @ [0x0D])) = Some 10683731149"
    by (simp add: parseInt_def trim_def is_space_def digit_of_def ustr_def)
  have n2: "parseInt (trim (ustr ''6442450944'' @ ustr ''  '' @ [0x0D])) = Some 6442450944"
    by (simp add: parseInt_def trim_def is_space_def digit_of_def ustr_def)
  have n3: "parseInt (trim (ustr ''5368709120'' @ ustr ''  '' @ [0x0D])) = Some 5368709120"
    by (simp add: parseInt_def trim_def is_space_def digit_of_def ustr_def)
  have l1: "elem_at (split_on 0x0A (wmic_output ''10683731149'')) 1 = Some (ustr ''10683731149'' @ ustr ''  '' @ [0x0D])"
    by (rule wmic_output_line) (simp add: ustr_def)
  have "\<lfloor>(10683731149 :: rat) * 10 / (1024 * 1024 * 1024) + 1 / 2\<rfloor> = 100"
    by (rule floor_unique) simp_all
  then have shown: "fixed1_text (toFixed1 (of_int 10683731149 / (1024 * 1024 * 1024))) = ''10.0''"
    by (simp add: fixed1_text_def toFixed1_def char_of_def bit_Suc_0_iff)
  have "availableSpace (swallow (checkSystem (example_host None None (Some (wmic_output ''10683731149''))))) = ''10.0 GB''"
    using example_host_probe [of None None "''10683731149''"] l1 n1 shown
    by (simp add: checkSystem_Done diskCheck_def swallow_def Let_def)
  with example_disk_probe(1) [OF _ n1] example_disk_probe(2) [OF _ n2] example_disk_probe(2) [OF _ n3]
  show ?thesis
    by (simp add: MIN_FREE_SPACE_GB_def ustr_def)
qed










text \<open>
  A name answer that is white space only, here a no-break space and a line end, is
  trimmed to the empty string: the check does not throw, asks for no VRAM and reports no
  GPU.
\<close>

lemma gpuCheck_blank_name:
  "gpuCheck (example_host (Some [0xA0, 0x0D, 0x0A]) None None) i = Done i"
  by (simp add: gpuCheck_def example_host_def trim_def is_space_def gpuNameCmd_def)

section \<open>The manifest fetcher\<close>

lemma fetchManifest_direct_non_200:
  assumes "net (R2_BASE_URL @ ''/manifest.json'') None = Response res"
    and "statusCode res \<noteq> 200" "statusCode res \<noteq> 301" "statusCode res \<noteq> 302"
  shows "fetchManifest net parse = Some (Inl (ManifestHttpError (statusCode res)))"
  using assms by (simp add: fetchManifest_def)

lemma fetchManifest_redirected:
  assumes "net (R2_BASE_URL @ ''/manifest.json'') None = Response res"
    and "statusCode res = 301 \<or> statusCode res = 302"
    and "location res = Some loc"
    and "net loc None = Response redirectRes"
  shows "fetchManifest net parse = readJson parse redirectRes"
  using assms by (auto simp: fetchManifest_def)

text \<open>
  C5. The claim: \<^verbatim>\<open>fetchManifest\<close> rejects with a network error on every non-200
  status, also when the status is that of the response reached through one redirect, and
  with a parse error exactly when a body with status 200 is not JSON. The code checks the
  status of the first response only: the redirected response goes to \<^verbatim>\<open>_readJson\<close>
  whatever its status (\<open>fetchManifest_redirected\<close>). With a mirror answering 404, the
  promise resolves with the parsed body when the body is JSON, and rejects with the parse
  error \<^verbatim>\<open>Invalid manifest JSON\<close> when it is an error page; the same 404 met without a
  redirect is rejected with \<^verbatim>\<open>Failed to fetch manifest: HTTP 404\<close>.
\<close>

theorem fetchManifest_redirect_status_unchecked:
  "fetchManifest (mirror_404_net ''{\"version\":1,\"buildDate\":\"\",\"archives\":{}}'') example_parse
      = Some (Inr \<lparr>version = 1, buildDate = '''', archives = Map.empty\<rparr>)
   \<and> fetchManifest (mirror_404_net ''<html>Not Found</html>'') example_parse
      = Some (Inl (InvalidManifestJson ''Unexpected token''))
   \<and> fetchManifest direct_404_net example_parse = Some (Inl (ManifestHttpError 404))"
  by (simp add: fetchManifest_def readJson_def mirror_404_net_def direct_404_net_def
      plain_response_def redirect_response_def example_parse_def R2_BASE_URL_def)

section \<open>The resumable downloader\<close>

lemma tick_None [simp]: "tick None = None"
  by (simp add: tick_def)

lemma earliest_None [simp]: "earliest None t = t" "earliest t None = t"
  by (simp_all add: earliest_def split: option.splits)

lemma curtail_None [simp]: "curtail None res = res"
  by (simp add: curtail_def)

lemma makeRequest_reaches:
  "reaches net rangeHdr timer url res \<Longrightarrow>
     makeRequest net writeError rangeHdr partialPath destPath expectedSize startByte fs timer url =
       Some (onResponse writeError partialPath destPath expectedSize startByte res fs)"
proof (induction rule: reaches.induct)
  case (direct timer url res)
  then show ?case
    by (subst makeRequest.simps) simp
next
  case (redirected timer url r loc res)
  then show ?case
    by (subst makeRequest.simps) auto
qed

lemma makeRequest_answers:
  "answers net rangeHdr url res \<Longrightarrow>
     makeRequest net writeError rangeHdr partialPath destPath expectedSize startByte fs None url =
       Some (onResponse writeError partialPath destPath expectedSize startByte res fs)"
  unfolding answers_def by (rule makeRequest_reaches)

lemma answers_direct:
  "net url rangeHdr = Response res \<Longrightarrow> statusCode res \<noteq> 301 \<Longrightarrow> statusCode res \<noteq> 302
     \<Longrightarrow> answers net rangeHdr url res"
  unfolding answers_def using reaches.direct [of None net url rangeHdr res] by simp

lemma makeRequest_cycle_armed:
  assumes cyc: "\<And>u. u \<in> C \<Longrightarrow> \<exists>res loc. net u rangeHdr = Response res
            \<and> (statusCode res = 301 \<or> statusCode res = 302) \<and> location res = Some loc \<and> loc \<in> C"
  shows "u \<in> C \<Longrightarrow>
     makeRequest net writeError rangeHdr partialPath destPath expectedSize startByte fs (Some k) u =
       Some (Inl ConnectionTimedOut, fs, [])"
proof (induction k arbitrary: u rule: less_induct)
  case (less k)
  show ?case
  proof (cases "k = 0")
    case True
    then show ?thesis
      by (subst makeRequest.simps) simp
  next
    case False
    from cyc [OF less.prems] obtain res loc where a: "net u rangeHdr = Response res"
      "statusCode res = 301 \<or> statusCode res = 302" "location res = Some loc" "loc \<in> C"
      by blast
    obtain j where j: "earliest (tick (Some k)) (idleTimer res) = Some j" "j < k"
      using False by (cases "idleTimer res") (auto simp: earliest_def tick_def)
    have "makeRequest net writeError rangeHdr partialPath destPath expectedSize startByte fs (Some k) u =
        makeRequest net writeError rangeHdr partialPath destPath expectedSize startByte fs (Some j) loc"
      using False a j(1) by (subst makeRequest.simps) auto
    with less.IH [OF j(2) a(4)] show ?thesis
      by simp
  qed
qed

lemma makeRequest_cycle_idles:
  assumes cyc: "\<And>u. u \<in> C \<Longrightarrow> \<exists>res loc. net u rangeHdr = Response res
            \<and> (statusCode res = 301 \<or> statusCode res = 302) \<and> location res = Some loc \<and> loc \<in> C"
  shows "idles net rangeHdr u \<Longrightarrow> u \<in> C \<Longrightarrow>
     makeRequest net writeError rangeHdr partialPath destPath expectedSize startByte fs None u =
       Some (Inl ConnectionTimedOut, fs, [])"
proof (induction rule: idles.induct)
  case (here url r)
  from cyc [OF here.prems] here.hyps(1) obtain loc where a: "location r = Some loc" "loc \<in> C"
    by auto
  from here.hyps(3) obtain k where k: "idleTimer r = Some k"
    by auto
  have "makeRequest net writeError rangeHdr partialPath destPath expectedSize startByte fs None url =
      makeRequest net writeError rangeHdr partialPath destPath expectedSize startByte fs (Some k) loc"
    using here.hyps(1,2) a(1) k by (subst makeRequest.simps) auto
  with makeRequest_cycle_armed [where C = C and net = net and rangeHdr = rangeHdr, OF cyc a(2)] show ?case
    by simp
next
  case (later url r loc)
  from cyc [OF later.prems] later.hyps(1,3) have loc: "loc \<in> C"
    by auto
  have step: "makeRequest net writeError rangeHdr partialPath destPath expectedSize startByte fs None url =
      makeRequest net writeError rangeHdr partialPath destPath expectedSize startByte fs (idleTimer r) loc"
    using later.hyps(1,2,3) by (subst makeRequest.simps) auto
  show ?case
  proof (cases "idleTimer r")
    case None
    with step later.IH [OF loc] show ?thesis
      by simp
  next
    case (Some k)
    with step makeRequest_cycle_armed [where C = C and net = net and rangeHdr = rangeHdr, OF cyc loc]
    show ?thesis
      by simp
  qed
qed

lemma makeRequest_cycle_quiet:
  assumes cyc: "\<And>u. u \<in> C \<Longrightarrow> \<exists>res loc. net u rangeHdr = Response res
            \<and> (statusCode res = 301 \<or> statusCode res = 302) \<and> location res = Some loc \<and> loc \<in> C"
    and res: "makeRequest net writeError rangeHdr partialPath destPath expectedSize startByte fs timer url = Some y"
  shows "url \<in> C \<longrightarrow> timer = None \<longrightarrow> idles net rangeHdr url"
proof -
  have "net = net \<longrightarrow> rangeHdr = rangeHdr \<longrightarrow> url \<in> C \<longrightarrow> timer = None \<longrightarrow> idles net rangeHdr url"
  proof (rule makeRequest.raw_induct
      [where P = "\<lambda>n w r pp dp es sb f t u y. n = net \<longrightarrow> r = rangeHdr \<longrightarrow> u \<in> C \<longrightarrow> t = None
                    \<longrightarrow> idles net rangeHdr u", OF _ res], goal_cases)
    case (1 mk n w r pp dp es sb f t u y)
    show ?case
    proof (intro impI)
      assume n: "n = net" and r: "r = rangeHdr" and u: "u \<in> C" and t: "t = None"
      from cyc [OF u] obtain res loc where a: "net u rangeHdr = Response res"
        "statusCode res = 301 \<or> statusCode res = 302" "location res = Some loc" "loc \<in> C"
        by blast
      show "idles net rangeHdr u"
      proof (cases "idleTimer res")
        case (Some k)
        with a(1,2) show ?thesis
          by (intro idles.here [of net u rangeHdr res]) simp_all
      next
        case None
        with 1(2) n r t a have "mk net w rangeHdr pp dp es sb f None loc = Some y"
          by auto
        from 1(1) [OF this] a(4) have "idles net rangeHdr loc"
          by simp
        with a(1,2,3) show ?thesis
          by (rule idles.later)
      qed
    qed
  qed
  then show ?thesis
    by simp
qed

text \<open>
  C10 (amended). \<^verbatim>\<open>makeRequest\<close> follows a redirect by calling itself with the
  \<^verbatim>\<open>Location\<close> header and the same headers, and counts no hops. Let the URLs of a set
  \<open>C\<close> all answer the request (with the \<^verbatim>\<open>Range\<close> header of this download) by a 301 or
  302 to a URL of \<open>C\<close> again, and let the download start in \<open>C\<close> and not be the
  promotion of a full partial file. The requests then go on for ever and the promise is
  never resolved. Whether it is rejected is decided by the idle timers, one for each hop:
  if the chain comes to a redirect whose connection stays open, the timer of that request
  fires and the promise is rejected with \<^verbatim>\<open>Connection timed out\<close>, no file touched; if
  it comes to none (the server closes the connection of every hop), the promise is never
  settled.
\<close>

theorem download_redirect_cycle:
  assumes "url \<in> C"
    and "\<forall>u\<in>C. \<exists>res loc. net u rangeHdr = Response res
           \<and> (statusCode res = 301 \<or> statusCode res = 302) \<and> location res = Some loc \<and> loc \<in> C"
    and "rangeHdr = (case fs (destPath @ ''.partial'') of
                       None \<Rightarrow> None
                     | Some p \<Rightarrow> if length p > 0 then Some (length p) else None)"
    and "\<forall>p. fs (destPath @ ''.partial'') = Some p \<longrightarrow> expectedSize = 0 \<or> length p < expectedSize"
  shows "downloadFileWithResume net writeError url destPath expectedSize fs =
           (if idles net rangeHdr url then Some (Inl ConnectionTimedOut, fs, []) else None)"
proof -
  define startByte where "startByte = (case fs (destPath @ ''.partial'') of None \<Rightarrow> 0 | Some p \<Rightarrow> length p)"
  have rh: "rangeHdr = (if startByte > 0 then Some startByte else None)"
    using assms(3) by (simp add: startByte_def split: option.splits)
  have cyc: "\<exists>res loc. net u rangeHdr = Response res
      \<and> (statusCode res = 301 \<or> statusCode res = 302) \<and> location res = Some loc \<and> loc \<in> C" if "u \<in> C" for u
    using assms(2) that by blast
  let ?mk = "makeRequest net writeError rangeHdr (destPath @ ''.partial'') destPath expectedSize startByte fs None url"
  have mk: "?mk = (if idles net rangeHdr url then Some (Inl ConnectionTimedOut, fs, []) else None)"
  proof (cases "idles net rangeHdr url")
    case True
    with makeRequest_cycle_idles [where C = C and net = net and rangeHdr = rangeHdr, OF cyc True assms(1)]
    show ?thesis
      by simp
  next
    case False
    have "?mk = None"
    proof (rule ccontr)
      assume "?mk \<noteq> None"
      then obtain y where "?mk = Some y"
        by blast
      from makeRequest_cycle_quiet [where C = C and net = net and rangeHdr = rangeHdr, OF cyc this]
        assms(1) False
      show False
        by simp
    qed
    with False show ?thesis
      by simp
  qed
  obtain res where "net url rangeHdr = Response res"
    using cyc [OF assms(1)] by blast
  then have "downloadFileWithResume net writeError url destPath expectedSize fs = ?mk"
    using rh assms(4)
    by (auto simp: downloadFileWithResume_def Let_def startByte_def split: option.splits)
  with mk show ?thesis
    by simp
qed

lemma cycle_net_quiet: "idles (cycle_net None) rangeHdr url \<Longrightarrow> False"
  by (induction rule: idles.induct)
    (auto simp: cycle_net_def redirect_response_def split: if_splits)

text \<open>
  The two URLs that redirect to each other: when the server closes the connection of
  every redirect the download never settles, and when it keeps them open the download is
  rejected.
\<close>

theorem download_redirect_cycle_witness:
  "downloadFileWithResume (cycle_net None) None ''https://a.example/f.zip'' ''C:/data/f.zip'' 100 Map.empty = None
   \<and> downloadFileWithResume (cycle_net (Some 3)) None ''https://a.example/f.zip'' ''C:/data/f.zip'' 100 Map.empty
       = Some (Inl ConnectionTimedOut, Map.empty, [])"
proof -
  have c: "\<forall>u\<in>{''https://a.example/f.zip'', ''https://b.example/f.zip''}. \<exists>res loc.
      cycle_net t u None = Response res \<and> (statusCode res = 301 \<or> statusCode res = 302)
      \<and> location res = Some loc \<and> loc \<in> {''https://a.example/f.zip'', ''https://b.example/f.zip''}" for t
    by (simp add: cycle_net_def redirect_response_def)
  have q: "\<not> idles (cycle_net None) None ''https://a.example/f.zip''"
    using cycle_net_quiet by blast
  have i: "idles (cycle_net (Some 3)) None ''https://a.example/f.zip''"
    by (rule idles.here [where r = "(redirect_response 302 ''https://b.example/f.zip'')\<lparr>idleTimer := Some 3\<rparr>"])
      (simp_all add: cycle_net_def redirect_response_def)
  have 1: "downloadFileWithResume (cycle_net None) None ''https://a.example/f.zip'' ''C:/data/f.zip'' 100 Map.empty = None"
    using download_redirect_cycle
      [where C = "{''https://a.example/f.zip'', ''https://b.example/f.zip''}" and rangeHdr = None
        and net = "cycle_net None" and url = "''https://a.example/f.zip''" and fs = Map.empty
        and destPath = "''C:/data/f.zip''" and expectedSize = 100 and writeError = None, OF _ c] q
    by simp
  have 2: "downloadFileWithResume (cycle_net (Some 3)) None ''https://a.example/f.zip'' ''C:/data/f.zip'' 100 Map.empty
       = Some (Inl ConnectionTimedOut, Map.empty, [])"
    using download_redirect_cycle
      [where C = "{''https://a.example/f.zip'', ''https://b.example/f.zip''}" and rangeHdr = None
        and net = "cycle_net (Some 3)" and url = "''https://a.example/f.zip''" and fs = Map.empty
        and destPath = "''C:/data/f.zip''" and expectedSize = 100 and writeError = None, OF _ c] i
    by simp
  from 1 2 show ?thesis
    by simp
qed

text \<open>
  C10 as stated fails when the server keeps the connections of the redirects open: each
  request of the cycle leaves its timer armed, here to fire after one more answer, and
  the promise is rejected with \<^verbatim>\<open>Connection timed out\<close> although the redirects never
  end.
\<close>

theorem download_redirect_cycle_counterexample:
  "downloadFileWithResume (cycle_net (Some 1)) None ''https://a.example/f.zip'' ''C:/data/f.zip'' 100 Map.empty
     = Some (Inl ConnectionTimedOut, Map.empty, [])"
proof -
  have 3: "makeRequest n w r pp dp es sb f (Some 0) u = Some (Inl ConnectionTimedOut, f, [])" for n w r pp dp es sb f u
    by (subst makeRequest.simps) simp
  have 2: "makeRequest (cycle_net t) None None ''C:/data/f.zip.partial'' ''C:/data/f.zip'' 100 0 Map.empty
      (Some (Suc 0)) ''https://b.example/f.zip'' = Some (Inl ConnectionTimedOut, Map.empty, [])" for t
    by (subst makeRequest.simps)
      (simp add: cycle_net_def redirect_response_def earliest_def tick_def 3 split: option.splits)
  have 1: "makeRequest (cycle_net (Some 1)) None None ''C:/data/f.zip.partial'' ''C:/data/f.zip'' 100 0 Map.empty
      None ''https://a.example/f.zip'' = Some (Inl ConnectionTimedOut, Map.empty, [])"
    by (subst makeRequest.simps) (simp add: cycle_net_def [abs_def] redirect_response_def 2 [unfolded cycle_net_def [abs_def]])
  have "cycle_net (Some 1) ''https://a.example/f.zip'' None \<noteq> BadUrl"
    by (simp add: cycle_net_def)
  then show ?thesis
    using 1 by (cases "cycle_net (Some 1) ''https://a.example/f.zip'' None") (simp_all add: downloadFileWithResume_def)
qed

text \<open>
  C3. A resume attempt: a partial file of \<open>k > 0\<close> bytes exists (and is not promoted),
  the request carries \<^verbatim>\<open>Range: bytes=k-\<close>, and the answer, reached directly or through
  redirects, has status 200. Then \<^verbatim>\<open>startByte\<close> is reset to 0, the write stream is
  opened with flag \<^verbatim>\<open>w\<close>, and when the body ends and the writes succeed the download
  resolves with the body alone at \<^verbatim>\<open>destPath\<close> and the partial file gone. (Behind
  redirects the body ends, for the callback, when no timer of an earlier hop fires
  first.)
\<close>

theorem resume_status_200_overwrites:
  assumes "fs (destPath @ ''.partial'') = Some p" and "0 < length p"
    and "expectedSize = 0 \<or> length p < expectedSize"
    and "answers net (Some (length p)) url res" and "statusCode res = 200"
    and "ending res = Finished" and "writeError = None"
  shows "startByte_after (statusCode res) (length p) = 0
       \<and> write_flags (statusCode res) (startByte_after (statusCode res) (length p)) = Truncate
       \<and> (\<exists>calls. downloadFileWithResume net writeError url destPath expectedSize fs =
             Some (Inr (), (fs(destPath @ ''.partial'' := None))(destPath \<mapsto> concat (chunks res)), calls))"
proof -
  have nb: "net url (Some (length p)) \<noteq> BadUrl"
    using assms(4) unfolding answers_def by (cases rule: reaches.cases) auto
  have "downloadFileWithResume net writeError url destPath expectedSize fs =
      makeRequest net writeError (Some (length p)) (destPath @ ''.partial'') destPath expectedSize (length p) fs None url"
    using assms(1,2,3) nb
    by (cases "net url (Some (length p))") (auto simp: downloadFileWithResume_def Let_def)
  also have "\<dots> = Some (onResponse writeError (destPath @ ''.partial'') destPath expectedSize (length p) res fs)"
    using assms(4) by (rule makeRequest_answers)
  finally show ?thesis
    using assms(5,6,7)
    by (simp add: onResponse_def startByte_after_def write_flags_def Let_def)
qed

theorem resume_status_200_overwrites_witness:
  "outcome_and_file ''C:/data/f.zip''
     (downloadFileWithResume (full_net ''NEWBODY'') None ''https://a.example/f.zip'' ''C:/data/f.zip'' 7
        [''C:/data/f.zip.partial'' \<mapsto> ''old'']) = Some (Inr (), Some ''NEWBODY'')
   \<and> outcome_and_file ''C:/data/f.zip.partial''
     (downloadFileWithResume (full_net ''NEWBODY'') None ''https://a.example/f.zip'' ''C:/data/f.zip'' 7
        [''C:/data/f.zip.partial'' \<mapsto> ''old'']) = Some (Inr (), None)"
proof -
  have a: "answers (full_net ''NEWBODY'') (Some (length ''old'')) ''https://a.example/f.zip'' (plain_response 200 ''NEWBODY'')"
    by (rule answers_direct) (simp_all add: full_net_def plain_response_def)
  show ?thesis
    using resume_status_200_overwrites [where p = "''old''" and destPath = "''C:/data/f.zip''" and expectedSize = 7
        and fs = "[''C:/data/f.zip.partial'' \<mapsto> ''old'']" and writeError = None, OF _ _ _ a]
    by (auto simp: plain_response_def outcome_and_file_def)
qed

section \<open>SHA-256: a test vector and the shape of the digest\<close>

lemma words_of_pad_abc:
  "words_of (pad (map of_char ''abc'')) = [1633837952, 0, 0, 0, 0, 0, 0, 0, 0, 0, 0, 0, 0, 0, 0, 24]"
proof -
  have "replicate 52 (0::int) = [0,0,0,0,0,0,0,0,0,0,0,0,0, 0,0,0,0,0,0,0,0,0,0,0,0,0,
      0,0,0,0,0,0,0,0,0,0,0,0,0, 0,0,0,0,0,0,0,0,0,0,0,0,0]"
    by (simp add: numeral_eq_Suc)
  then show ?thesis
    by (simp add: pad_def len_bytes_def)
qed

lemma compress_abc:
  "compress H0 [1633837952, 0, 0, 0, 0, 0, 0, 0, 0, 0, 0, 0, 0, 0, 0, 24] =
     (3128432319, 2399260650, 1094795486, 1571693091, 2953011619, 2518121116, 3021012833, 4060091821)"
  by (simp add: compress_def K256_def H0_def next_w_def add32_def rotr_def shr_def Ch_def Maj_def
      bsig0_def bsig1_def ssig0_def ssig1_def)

lemma sha256_abc:
  "sha256_hex ''abc'' = ''ba7816bf8f01cfea414140de5dae2223b00361a396177a9cb410ff61f20015ad''"
proof -
  have "sha256_hex ''abc'' =
      hex_state (3128432319, 2399260650, 1094795486, 1571693091, 2953011619, 2518121116, 3021012833, 4060091821)"
    by (simp only: sha256_hex_def words_of_pad_abc Let_def) (simp add: compress_abc)
  then show ?thesis
    by (simp add: hex32_def hexdigit_def)
qed

lemma hexdigit_lower: "hexdigit n \<in> set ''0123456789abcdef''"
proof -
  have "nat (n mod 16) < length ''0123456789abcdef''"
    by simp
  then show ?thesis
    unfolding hexdigit_def by (rule nth_mem)
qed

lemma hex32_subset: "(\<And>n. hexdigit n \<in> S) \<Longrightarrow> set (hex32 w) \<subseteq> S"
  by (simp add: hex32_def)

lemma hex32_shape: "length (hex32 w) = 8" "set (hex32 w) \<subseteq> set ''0123456789abcdef''"
  by (simp add: hex32_def) (rule hex32_subset [OF hexdigit_lower])

lemma hex_state_shape: "length (hex_state s) = 64 \<and> set (hex_state s) \<subseteq> set ''0123456789abcdef''"
proof -
  obtain a b c d e f g h where "s = (a, b, c, d, e, f, g, h)"
    by (cases s rule: hex_state.cases)
  then show ?thesis
    using hex32_shape by simp
qed

lemma sha256_hex_shape:
  "length (sha256_hex bytes) = 64 \<and> set (sha256_hex bytes) \<subseteq> set ''0123456789abcdef''"
  by (simp only: sha256_hex_def Let_def hex_state_shape)

section \<open>The integrity verifier\<close>

text \<open>
  C6 (amended). For every readable file and every expected hash, \<^verbatim>\<open>verifyChecksum\<close>
  resolves exactly when the file's SHA-256 digest, 64 lower-case hexadecimal digits,
  is the expected string. On a mismatch it rejects with an error whose message names the
  file and carries the first twelve characters of the expected hash and the first twelve
  of the actual digest, not the two strings themselves.
\<close>

theorem verifyChecksum_digest:
  assumes "fs filePath = Some bytes"
  shows "(verifyChecksum fs filePath expectedSha256 = Inr True \<longleftrightarrow> sha256_hex bytes = expectedSha256)
       \<and> (sha256_hex bytes \<noteq> expectedSha256 \<longrightarrow>
            verifyChecksum fs filePath expectedSha256 =
              Inl (ChecksumMismatch (basename filePath) (take 12 expectedSha256) (take 12 (sha256_hex bytes))))
       \<and> length (sha256_hex bytes) = 64 \<and> set (sha256_hex bytes) \<subseteq> set ''0123456789abcdef''"
  using assms sha256_hex_shape [of bytes]
  by (simp add: verifyChecksum_def Let_def)

theorem verifyChecksum_digest_witness:
  "verifyChecksum [''C:/data/f.zip'' \<mapsto> ''abc''] ''C:/data/f.zip''
      ''ba7816bf8f01cfea414140de5dae2223b00361a396177a9cb410ff61f20015ad'' = Inr True
   \<and> verifyChecksum [''C:/data/f.zip'' \<mapsto> ''abc''] ''C:/data/f.zip''
      ''e3b0c44298fc1c149afbf4c8996fb92427ae41e4649b934ca495991b7852b855'' =
        Inl (ChecksumMismatch ''f.zip'' ''e3b0c44298fc'' ''ba7816bf8f01'')"
  using verifyChecksum_digest [of "[''C:/data/f.zip'' \<mapsto> ''abc'']" "''C:/data/f.zip''" "''abc''"
      "''ba7816bf8f01cfea414140de5dae2223b00361a396177a9cb410ff61f20015ad''"]
    verifyChecksum_digest [of "[''C:/data/f.zip'' \<mapsto> ''abc'']" "''C:/data/f.zip''" "''abc''"
      "''e3b0c44298fc1c149afbf4c8996fb92427ae41e4649b934ca495991b7852b855''"]
  by (simp add: sha256_abc basename_def)

text \<open>
  C6 as stated fails where the expected hash and the digest agree on their first twelve
  characters: the file is rejected, and the two strings the error carries are equal, and
  neither is a digest.
\<close>

theorem verifyChecksum_digest_counterexample:
  "verifyChecksum [''C:/data/f.zip'' \<mapsto> ''abc''] ''C:/data/f.zip''
      ''ba7816bf8f01cfea414140de5dae2223b00361a396177a9cb410ff61f20015ae'' =
        Inl (ChecksumMismatch ''f.zip'' ''ba7816bf8f01'' ''ba7816bf8f01'')"
  by (simp add: verifyChecksum_def sha256_abc basename_def)

section \<open>What a successful download leaves on disk\<close>

lemma makeRequest_Some:
  assumes "makeRequest net writeError rangeHdr partialPath destPath expectedSize startByte fs timer url = Some y"
  shows "(\<exists>e. y = (Inl e, fs, []))
       \<or> (\<exists>u res t. net u rangeHdr = Response res
             \<and> y = onResponse writeError partialPath destPath expectedSize startByte (curtail t res) fs)"
proof (rule makeRequest.raw_induct
    [where P = "\<lambda>n w r pp dp es sb f t u y. (\<exists>e. y = (Inl e, f, []))
       \<or> (\<exists>u res t. n u r = Response res \<and> y = onResponse w pp dp es sb (curtail t res) f)", OF _ assms], goal_cases)
  case (1 mk n w r pp dp es sb f t u y)
  show ?case
  proof (cases "t = Some 0")
    case True
    with 1(2) show ?thesis by auto
  next
    case False
    show ?thesis
    proof (cases "n u r")
      case BadUrl
      with 1(2) False show ?thesis by (auto split: if_splits)
    next
      case (SocketError e)
      with 1(2) False show ?thesis by auto
    next
      case NoReply
      with 1(2) False show ?thesis by auto
    next
      case (Response res)
      show ?thesis
      proof (cases "statusCode res = 301 \<or> statusCode res = 302")
        case True
        show ?thesis
        proof (cases "location res")
          case None
          with 1(2) False Response True show ?thesis
            by (auto split: if_splits)
        next
          case (Some loc)
          with 1(2) False Response True
          have "mk n w r pp dp es sb f (earliest (tick t) (idleTimer res)) loc = Some y"
            by auto
          from 1(1) [OF this] show ?thesis .
        qed
      next
        case nr: False
        with 1(2) False Response have "y = onResponse w pp dp es sb (curtail (tick t) res) f"
          by auto
        with Response show ?thesis by blast
      qed
    qed
  qed
qed

lemma curtail_Finished: "ending (curtail t res) = Finished \<Longrightarrow> curtail t res = res"
  by (auto simp: curtail_def split: option.splits if_splits)

lemma onResponse_Inr_Finished:
  "onResponse writeError partialPath destPath expectedSize startByte res fs = (Inr (), fs', calls)
     \<Longrightarrow> ending res = Finished"
  by (auto simp: onResponse_def Let_def split: if_splits option.splits ending.splits)

lemma downloadFileWithResume_cases:
  assumes "downloadFileWithResume n w url dp es f = Some y"
  shows "(\<exists>e. y = (e, f, [])) \<or> y = (Inr (), (f(dp @ ''.partial'' := None))(dp := f (dp @ ''.partial'')), [])
       \<or> (\<exists>rh sb. makeRequest n w rh (dp @ ''.partial'') dp es sb f None url = Some y)"
proof -
  define pp where "pp = dp @ ''.partial''"
  define sb where "sb = (case f pp of None \<Rightarrow> 0 | Some p \<Rightarrow> length p)"
  define rh where "rh = (if sb > 0 then Some sb else None)"
  have dl: "downloadFileWithResume n w url dp es f =
      (if f pp \<noteq> None \<and> es \<noteq> 0 \<and> sb \<ge> es
       then Some (Inr (), (f(pp := None))(dp := f pp), [])
       else case n url rh of
              BadUrl \<Rightarrow> Some (Inl (TypeError ''Invalid URL''), f, [])
            | _ \<Rightarrow> makeRequest n w rh pp dp es sb f None url)"
    unfolding downloadFileWithResume_def Let_def pp_def sb_def rh_def
    by (rule refl)
  show ?thesis
  proof (cases "f pp \<noteq> None \<and> es \<noteq> 0 \<and> sb \<ge> es")
    case True
    have "downloadFileWithResume n w url dp es f = Some (Inr (), (f(pp := None))(dp := f pp), [])"
      unfolding dl using True by (rule if_P)
    with assms show ?thesis
      by (auto simp: pp_def)
  next
    case False
    have eq: "downloadFileWithResume n w url dp es f =
        (case n url rh of
              BadUrl \<Rightarrow> Some (Inl (TypeError ''Invalid URL''), f, [])
            | _ \<Rightarrow> makeRequest n w rh pp dp es sb f None url)"
      unfolding dl using False by (rule if_not_P)
    show ?thesis
    proof (cases "n url rh")
      case BadUrl
      with eq assms show ?thesis by auto
    next
      case (SocketError x)
      with eq assms have "makeRequest n w rh pp dp es sb f None url = Some y" by simp
      then show ?thesis unfolding pp_def by blast
    next
      case NoReply
      with eq assms have "makeRequest n w rh pp dp es sb f None url = Some y" by simp
      then show ?thesis unfolding pp_def by blast
    next
      case (Response x)
      with eq assms have "makeRequest n w rh pp dp es sb f None url = Some y" by simp
      then show ?thesis unfolding pp_def by blast
    qed
  qed
qed



lemma onResponse_Inr:
  assumes "onResponse writeError partialPath destPath expectedSize startByte res fs = (Inr (), fs', calls)"
  shows "(statusCode res = 200 \<and> fs' destPath = Some (concat (chunks res)))
       \<or> (statusCode res = 206 \<and>
            fs' destPath = Some ((if startByte > 0 then (case fs partialPath of None \<Rightarrow> [] | Some p \<Rightarrow> p) else [])
                                 @ concat (chunks res)))"
  using assms
  by (auto simp: onResponse_def startByte_after_def write_flags_def Let_def
      split: if_splits option.splits ending.splits)

text \<open>
  C2 (amended). \<^verbatim>\<open>downloadFileWithResume\<close> checks neither the length nor the digest of
  what it leaves at \<^verbatim>\<open>destPath\<close>: the digest is \<^verbatim>\<open>verifyChecksum\<close>'s business, and a
  partial file at least as long as the declared size is renamed as it is. What holds is
  this. Let the archive be the bytes \<open>A\<close>, with the declared size \<open>length A\<close> and the
  declared digest \<open>sha256_hex A\<close>. If the partial file, when there is one, is a prefix
  of \<open>A\<close>, and the server sends \<open>A\<close> with status 200 and the bytes of \<open>A\<close> from the
  requested offset with status 206, then after every successful completion, the
  promotion of a full partial file included, the file at \<^verbatim>\<open>destPath\<close> is \<open>A\<close>: its
  length is the declared size and its digest the declared digest.
\<close>

theorem download_leaves_archive:
  assumes "downloadFileWithResume net writeError url destPath (size info) fs = Some (Inr (), fs', calls)"
    and "size info = length A" and "sha256 info = sha256_hex A"
    and "\<forall>p. fs (destPath @ ''.partial'') = Some p \<longrightarrow> take (length p) A = p"
    and "\<forall>u r res. net u r = Response res \<longrightarrow>
           (statusCode res = 200 \<longrightarrow> concat (chunks res) = A)
           \<and> (statusCode res = 206 \<longrightarrow> concat (chunks res) = drop (case r of None \<Rightarrow> 0 | Some k \<Rightarrow> k) A)"
  shows "\<exists>bytes. fs' destPath = Some bytes \<and> length bytes = size info \<and> sha256_hex bytes = sha256 info"
proof -
  define partialPath where "partialPath = destPath @ ''.partial''"
  define startByte where "startByte = (case fs partialPath of None \<Rightarrow> 0 | Some p \<Rightarrow> length p)"
  define rangeHdr where "rangeHdr = (if startByte > 0 then Some startByte else None)"
  have pre: "take (length p) A = p" if "fs partialPath = Some p" for p
    using assms(4) that by (simp add: partialPath_def)
  have dl: "downloadFileWithResume net writeError url destPath (size info) fs =
      (if fs partialPath \<noteq> None \<and> size info \<noteq> 0 \<and> startByte \<ge> size info
       then Some (Inr (), (fs(partialPath := None))(destPath := fs partialPath), [])
       else case net url rangeHdr of
              BadUrl \<Rightarrow> Some (Inl (TypeError ''Invalid URL''), fs, [])
            | _ \<Rightarrow> makeRequest net writeError rangeHdr partialPath destPath (size info) startByte fs None url)"
    unfolding downloadFileWithResume_def Let_def partialPath_def startByte_def rangeHdr_def
    by (rule refl)
  have "fs' destPath = Some A"
  proof (cases "fs partialPath \<noteq> None \<and> size info \<noteq> 0 \<and> startByte \<ge> size info")
    case True
    then obtain p where p: "fs partialPath = Some p" "length A \<le> length p"
      by (auto simp: startByte_def assms(2))
    from p(2) have "take (length p) A = A"
      by simp
    with pre [OF p(1)] have "p = A"
      by simp
    moreover have "downloadFileWithResume net writeError url destPath (size info) fs =
        Some (Inr (), (fs(partialPath := None))(destPath := fs partialPath), [])"
      unfolding dl using True by (rule if_P)
    with assms(1) have "fs' = (fs(partialPath := None))(destPath := fs partialPath)"
      by simp
    ultimately show ?thesis
      using p(1) by simp
  next
    case False
    have "downloadFileWithResume net writeError url destPath (size info) fs =
        (case net url rangeHdr of
              BadUrl \<Rightarrow> Some (Inl (TypeError ''Invalid URL''), fs, [])
            | _ \<Rightarrow> makeRequest net writeError rangeHdr partialPath destPath (size info) startByte fs None url)"
      unfolding dl using False by (rule if_not_P)
    with assms(1) have c: "(case net url rangeHdr of
              BadUrl \<Rightarrow> Some (Inl (TypeError ''Invalid URL''), fs, [])
            | _ \<Rightarrow> makeRequest net writeError rangeHdr partialPath destPath (size info) startByte fs None url)
        = Some (Inr (), fs', calls)"
      by simp
    have mk: "makeRequest net writeError rangeHdr partialPath destPath (size info) startByte fs None url
        = Some (Inr (), fs', calls)"
      using c by (cases "net url rangeHdr") simp_all
    from makeRequest_Some [OF mk] obtain u res t where r0: "net u rangeHdr = Response res"
      "onResponse writeError partialPath destPath (size info) startByte (curtail t res) fs = (Inr (), fs', calls)"
      by auto
    from onResponse_Inr_Finished [OF r0(2)] have "curtail t res = res"
      by (rule curtail_Finished)
    with r0 have r: "net u rangeHdr = Response res"
      "onResponse writeError partialPath destPath (size info) startByte res fs = (Inr (), fs', calls)"
      by simp_all
    from assms(5) r(1) have srv200: "statusCode res = 200 \<Longrightarrow> concat (chunks res) = A"
      by blast
    from assms(5) r(1) have srv206: "statusCode res = 206 \<Longrightarrow>
        concat (chunks res) = drop (case rangeHdr of None \<Rightarrow> 0 | Some k \<Rightarrow> k) A"
      by blast
    from onResponse_Inr [OF r(2)] show ?thesis
    proof (elim disjE conjE)
      assume "statusCode res = 200" "fs' destPath = Some (concat (chunks res))"
      with srv200 show ?thesis by simp
    next
      assume s: "statusCode res = 206"
        and f: "fs' destPath = Some ((if startByte > 0 then (case fs partialPath of None \<Rightarrow> [] | Some p \<Rightarrow> p) else [])
                                 @ concat (chunks res))"
      show ?thesis
      proof (cases "startByte > 0")
        case True
        then obtain p where p: "fs partialPath = Some p" "startByte = length p"
          by (auto simp: startByte_def split: option.splits)
        from srv206 [OF s] True have "concat (chunks res) = drop (length p) A"
          by (simp add: rangeHdr_def p(2))
        moreover have "take (length p) A @ drop (length p) A = A"
          by (rule append_take_drop_id)
        ultimately have "p @ concat (chunks res) = A"
          using pre [OF p(1)] by simp
        with f True p(1) show ?thesis
          by simp
      next
        case False
        with srv206 [OF s] have "concat (chunks res) = A"
          by (simp add: rangeHdr_def)
        with f False show ?thesis by simp
      qed
    qed
  qed
  with assms(2,3) show ?thesis
    by simp
qed

text \<open>A resumed download: one byte on disk, the server honours the range.\<close>

theorem download_leaves_archive_witness:
  "outcome_and_file ''C:/data/f.zip''
     (downloadFileWithResume (range_net ''abc'') None ''https://a.example/f.zip'' ''C:/data/f.zip'' 3
        [''C:/data/f.zip.partial'' \<mapsto> ''a'']) = Some (Inr (), Some ''abc'')
   \<and> sha256_hex ''abc'' = ''ba7816bf8f01cfea414140de5dae2223b00361a396177a9cb410ff61f20015ad''"
proof -
  define info where "info = \<lparr>filename = ''f.zip'', size = 3,
     sha256 = ''ba7816bf8f01cfea414140de5dae2223b00361a396177a9cb410ff61f20015ad''\<rparr>"
  define fs :: filesys where "fs = [''C:/data/f.zip.partial'' \<mapsto> ''a'']"
  have a: "answers (range_net ''abc'') (Some 1) ''https://a.example/f.zip'' (plain_response 206 ''bc'')"
    by (rule answers_direct) (simp_all add: range_net_def plain_response_def)
  have "downloadFileWithResume (range_net ''abc'') None ''https://a.example/f.zip'' ''C:/data/f.zip'' 3 fs =
      Some (onResponse None ''C:/data/f.zip.partial'' ''C:/data/f.zip'' 3 1 (plain_response 206 ''bc'') fs)"
    using makeRequest_answers [OF a, of None "''C:/data/f.zip.partial''" "''C:/data/f.zip''" 3 1 fs]
    by (simp add: downloadFileWithResume_def Let_def range_net_def fs_def)
  then have r: "downloadFileWithResume (range_net ''abc'') None ''https://a.example/f.zip''
      ''C:/data/f.zip'' (size info) fs =
      Some (Inr (), (fs(''C:/data/f.zip.partial'' := None))(''C:/data/f.zip'' \<mapsto> ''abc''), [(3, 3)])"
    by (simp add: onResponse_def plain_response_def startByte_after_def write_flags_def Let_def fs_def info_def)
  have srv: "\<forall>u r res. range_net ''abc'' u r = Response res \<longrightarrow>
           (statusCode res = 200 \<longrightarrow> concat (chunks res) = ''abc'')
           \<and> (statusCode res = 206 \<longrightarrow> concat (chunks res) = drop (case r of None \<Rightarrow> 0 | Some k \<Rightarrow> k) ''abc'')"
    by (auto simp: range_net_def plain_response_def split: option.splits)
  have "\<exists>bytes. ((fs(''C:/data/f.zip.partial'' := None))(''C:/data/f.zip'' \<mapsto> ''abc'')) ''C:/data/f.zip'' = Some bytes
      \<and> length bytes = size info \<and> sha256_hex bytes = sha256 info"
    by (rule download_leaves_archive [OF r _ _ _ srv]) (simp_all add: info_def sha256_abc fs_def)
  then have "sha256_hex ''abc'' = sha256 info"
    by simp
  with r show ?thesis
    by (simp add: outcome_and_file_def info_def fs_def)
qed

text \<open>
  C2 as stated fails on the path it names: a partial file of five bytes with a declared
  size of three is renamed as it is, no request is made (the server here would never
  answer), and the download succeeds with five bytes at \<^verbatim>\<open>destPath\<close>.
\<close>

theorem download_leaves_archive_counterexample:
  "outcome_and_file ''C:/data/f.zip''
     (downloadFileWithResume (\<lambda>url rangeHdr. NoReply) None ''https://a.example/f.zip'' ''C:/data/f.zip'' 3
        [''C:/data/f.zip.partial'' \<mapsto> ''12345'']) = Some (Inr (), Some ''12345'')
   \<and> length ''12345'' \<noteq> (3 :: nat)"
  by (simp add: downloadFileWithResume_def outcome_and_file_def)

section \<open>The orchestrator: when the completion marker is written\<close>

lemma sendProgress_simps [simp]:
  "disk (sendProgress e s p st) = disk st"
  "writes (sendProgress e s p st) = writes st"
  "cbcalls (sendProgress e s p st) = cbcalls st"
  "nsend (sendProgress e s p st) = Suc (nsend st)"
  by (simp_all add: sendProgress_def)

lemma progressCb_simps [simp]:
  "disk (progressCb e s a b c st) = disk st"
  "writes (progressCb e s a b c st) = writes st"
  "cbcalls (progressCb e s a b c st) = cbcalls st @ [c]"
  by (simp_all add: progressCb_def Let_def)

lemma fold_progressCb_simps [simp]:
  "disk (fold (progressCb e s a b) calls st) = disk st"
  "writes (fold (progressCb e s a b) calls st) = writes st"
  "cbcalls (fold (progressCb e s a b) calls st) = cbcalls st @ calls"
  by (induction calls arbitrary: st) simp_all

lemma unlinkSync_simps [simp]:
  "writes (unlinkSync p st) = writes st"
  "events (unlinkSync p st) = events st"
  "nsend (unlinkSync p st) = nsend st"
  "cbcalls (unlinkSync p st) = cbcalls st"
  by (simp_all add: unlinkSync_def)

lemma extractZip_simps:
  "extractZip e z d st = (r, st') \<Longrightarrow>
     writes st' = writes st \<and> events st' = events st \<and> nsend st' = nsend st \<and> cbcalls st' = cbcalls st"
  by (auto simp: extractZip_def unpack_def split: option.splits)

lemma writeFileSync_simps [simp]:
  "events (snd (writeFileSync e p c st)) = events st"
  "cbcalls (snd (writeFileSync e p c st)) = cbcalls st"
  "nsend (snd (writeFileSync e p c st)) = nsend st"
  by (simp_all add: writeFileSync_def split: option.splits fault.splits)

lemma writeFileSync_Inr:
  "writeFileSync e p c st = (Inr u, st') \<Longrightarrow>
     st' = st\<lparr>disk := (disk st)(p \<mapsto> c), writes := writes st @ [(p, c)]\<rparr>"
  by (auto simp: writeFileSync_def split: option.splits fault.splits)



lemma fixPth_simps [simp]:
  "events (snd (fixPth e st)) = events st"
  "cbcalls (snd (fixPth e st)) = cbcalls st"
  "nsend (snd (fixPth e st)) = nsend st"
  by (simp_all add: fixPth_def Let_def split: option.splits)







text \<open>
  A run that completes has fetched the manifest, has gone through every archive step,
  has fixed the path file and has written the marker, in this order.
\<close>

lemma runSetup_try_Inr:
  assumes "runSetup_try e opts st = Some (Inr r, st')"
  obtains mf st2 st4 st5 where
    "fetchManifest (network e) (parseManifest e) = Some (Inr mf)"
    "installArchives e mf 0 (archiveKeysFor (useGpu opts) mf) (sendProgress e ''python'' 2 st) = Some (Inr (), st2)"
    "fixPth e (sendProgress e ''model'' 96 st2) = (Inr (), st4)"
    "writeFileSync e (setupFlagPath (userData e)) (stringify e (completionMarker e opts mf)) st4 = (Inr (), st5)"
    "st' = sendProgress e ''complete'' 100 st5"
  using assms
  by (auto simp: runSetup_try_def Let_def split: option.splits sum.splits list.splits prod.splits)



lemma runSetup_try_complete:
  assumes "runSetup_try e opts st = Some (Inr r, st')"
  shows "\<exists>mf. disk st' (setupFlagPath (userData e)) = Some (stringify e (completionMarker e opts mf))
           \<and> last (writes st') = (setupFlagPath (userData e), stringify e (completionMarker e opts mf))
           \<and> (windowUsable e (nsend st' - 1) \<longrightarrow>
                events st' \<noteq> [] \<and> last (events st') = \<lparr>stage = ''complete'', percent = 100\<rparr>)"
proof -
  from assms obtain mf st2 st4 st5 where
    w: "writeFileSync e (setupFlagPath (userData e)) (stringify e (completionMarker e opts mf)) st4 = (Inr (), st5)"
    and st': "st' = sendProgress e ''complete'' 100 st5"
    by (rule runSetup_try_Inr)
  from writeFileSync_Inr [OF w] show ?thesis
    unfolding st'
    by (intro exI [where x = mf]) (simp add: sendProgress_def)
qed



section \<open>The orchestrator: progress is non-decreasing\<close>

lemma Math_round_mono: "x \<le> y \<Longrightarrow> Math_round x \<le> Math_round y"
  by (simp add: Math_round_def floor_mono)

lemma Math_round_of_int [simp]: "Math_round (of_int n) = n"
proof -
  have "\<lfloor>(of_int n :: rat) + 1 / 2\<rfloor> = n"
    by (rule floor_unique) simp_all
  then show ?thesis
    by (simp add: Math_round_def)
qed

lemma dlPercent_mono:
  assumes "ps \<le> pe" and "d1 \<le> d2"
  shows "dlPercent ps pe (d1, t) \<le> dlPercent ps pe (d2, t)"
proof -
  have "(of_nat d1 :: rat) / of_nat t \<le> of_nat d2 / of_nat t"
    using assms(2) by (simp add: divide_right_mono)
  moreover have "(0 :: rat) \<le> of_int (pe - ps) * (7 / 10)"
    using assms(1) by simp
  ultimately have "(of_nat d1 :: rat) / of_nat t * (of_int (pe - ps) * (7 / 10))
      \<le> of_nat d2 / of_nat t * (of_int (pe - ps) * (7 / 10))"
    by (rule mult_right_mono)
  then show ?thesis
    unfolding dlPercent_def by (intro Math_round_mono) (simp add: mult.assoc)
qed

lemma dlPercent_lower:
  assumes "ps \<le> pe"
  shows "ps \<le> dlPercent ps pe c"
proof -
  have "(0 :: rat) \<le> (of_nat (fst c) / of_nat (snd c)) * of_int (pe - ps) * (7 / 10)"
    using assms by simp
  then have "Math_round (of_int ps) \<le> dlPercent ps pe c"
    unfolding dlPercent_def by (intro Math_round_mono) simp
  then show ?thesis
    by simp
qed

lemma dlPercent_upper:
  assumes "ps \<le> pe" and "fst c \<le> snd c"
  shows "dlPercent ps pe c \<le> Math_round (of_int ps + of_int (pe - ps) * (7 / 10))"
proof -
  have "(of_nat (fst c) :: rat) / of_nat (snd c) \<le> 1"
    using assms(2) by (cases "snd c = 0") (simp_all add: divide_le_eq_1)
  moreover have "(0 :: rat) \<le> of_int (pe - ps) * (7 / 10)"
    using assms(1) by simp
  ultimately have "(of_nat (fst c) :: rat) / of_nat (snd c) * (of_int (pe - ps) * (7 / 10))
      \<le> 1 * (of_int (pe - ps) * (7 / 10))"
    by (rule mult_right_mono)
  then show ?thesis
    unfolding dlPercent_def by (intro Math_round_mono) (simp add: mult.assoc)
qed

lemma rising_sendProgress:
  assumes "rising_upto b st" and "b \<le> p"
  shows "rising_upto p (sendProgress e s p st)"
proof -
  from assms have le: "list_all (\<lambda>ev. percent ev \<le> p) (events st)"
    by (auto simp: rising_upto_def list_all_iff)
  with assms(1) show ?thesis
    by (auto simp: rising_upto_def sendProgress_def sorted_append list_all_iff)
qed

lemma rising_weaken: "rising_upto b st \<Longrightarrow> b \<le> c \<Longrightarrow> rising_upto c st"
  by (auto simp: rising_upto_def list_all_iff)

lemma rising_same_events: "events st' = events st \<Longrightarrow> rising_upto b st' = rising_upto b st"
  by (simp add: rising_upto_def)

lemma progressCb_eq:
  "progressCb e s ps pe c st = sendProgress e s (dlPercent ps pe c) (st\<lparr>cbcalls := cbcalls st @ [c]\<rparr>)"
  by (simp add: progressCb_def dlPercent_def Let_def)

lemma rising_progressCb:
  assumes "rising_upto b st" and "b \<le> dlPercent ps pe c"
  shows "rising_upto (dlPercent ps pe c) (progressCb e s ps pe c st)"
proof -
  have "rising_upto b (st\<lparr>cbcalls := cbcalls st @ [c]\<rparr>)"
    using assms(1) by (simp add: rising_upto_def)
  then show ?thesis
    unfolding progressCb_eq using assms(2) by (rule rising_sendProgress)
qed

lemma rising_fold_progressCb:
  assumes "rising_upto b st"
    and "sorted (map (dlPercent ps pe) calls)"
    and "list_all (\<lambda>c. b \<le> dlPercent ps pe c \<and> dlPercent ps pe c \<le> v) calls"
    and "b \<le> v"
  shows "rising_upto v (fold (progressCb e s ps pe) calls st)"
  using assms
proof (induction calls arbitrary: b st)
  case Nil
  then show ?case
    by (simp add: rising_weaken)
next
  case (Cons c calls)
  have 1: "rising_upto (dlPercent ps pe c) (progressCb e s ps pe c st)"
    by (rule rising_progressCb [OF Cons.prems(1)]) (use Cons.prems(3) in simp)
  have 2: "list_all (\<lambda>c'. dlPercent ps pe c \<le> dlPercent ps pe c' \<and> dlPercent ps pe c' \<le> v) calls"
    using Cons.prems(2,3) by (auto simp: list_all_iff)
  have 3: "dlPercent ps pe c \<le> v"
    using Cons.prems(3) by simp
  have "rising_upto v (fold (progressCb e s ps pe) calls (progressCb e s ps pe c st))"
    using 1 _ 2 3 by (rule Cons.IH) (use Cons.prems(2) in simp)
  then show ?case
    by simp
qed

lemma progress_calls_shape:
  "sorted (map fst (progress_calls d t cs)) \<and> list_all (\<lambda>c. d \<le> fst c \<and> snd c = t) (progress_calls d t cs)"
proof (induction cs arbitrary: d)
  case Nil
  then show ?case by simp
next
  case (Cons c cs)
  from Cons.IH [of "d + length c"] show ?case
    by (auto simp: list_all_iff)
qed

lemma onResponse_calls:
  "onResponse w pp dp es sb res f = (r, f', calls) \<Longrightarrow>
     \<exists>t. sorted (map fst calls) \<and> list_all (\<lambda>c. snd c = t) calls"
proof -
  assume a: "onResponse w pp dp es sb res f = (r, f', calls)"
  have "calls = [] \<or> (\<exists>d t. calls = progress_calls d t (chunks res))"
    using a
    by (auto simp: onResponse_def Let_def split: if_splits option.splits ending.splits)
  then show ?thesis
  proof
    assume "calls = []"
    then show ?thesis by simp
  next
    assume "\<exists>d t. calls = progress_calls d t (chunks res)"
    then obtain d t where "calls = progress_calls d t (chunks res)"
      by blast
    with progress_calls_shape [of d t "chunks res"] show ?thesis
      by (auto simp: list_all_iff)
  qed
qed

lemma download_calls:
  assumes "downloadFileWithResume n w url dp es f = Some (r, f', calls)"
  shows "\<exists>t. sorted (map fst calls) \<and> list_all (\<lambda>c. snd c = t) calls"
proof -
  from downloadFileWithResume_cases [OF assms]
  consider "calls = []"
    | rh sb where "makeRequest n w rh (dp @ ''.partial'') dp es sb f None url = Some (r, f', calls)"
    by auto
  then show ?thesis
  proof cases
    case 1
    then show ?thesis by simp
  next
    case 2
    from makeRequest_Some [OF 2] show ?thesis
    proof
      assume "\<exists>e. (r, f', calls) = (Inl e, f, [])"
      then show ?thesis by auto
    next
      assume "\<exists>u res t. n u rh = Response res \<and> (r, f', calls) = onResponse w (dp @ ''.partial'') dp es sb (curtail t res) f"
      then obtain res where "onResponse w (dp @ ''.partial'') dp es sb res f = (r, f', calls)"
        by metis
      then show ?thesis
        by (rule onResponse_calls)
    qed
  qed
qed

lemma downloadAndInstallArchive_success:
  assumes "downloadAndInstallArchive e info key ps pe stg st = Some (Inr (), st')"
  shows "\<exists>disk' calls st5.
      downloadFileWithResume (network e) (writeErrorOf e (path_join [userData e, filename info] @ ''.partial''))
        (R2_BASE_URL @ ''/'' @ filename info) (path_join [userData e, filename info]) (size info)
        (disk (sendProgress e stg ps st)) = Some (Inr (), disk', calls)
      \<and> extractZip e (path_join [userData e, filename info]) (userData e)
          (sendProgress e stg (Math_round (of_int ps + of_int (pe - ps) * (8 / 10)))
            (sendProgress e stg (Math_round (of_int ps + of_int (pe - ps) * (7 / 10)))
              (fold (progressCb e stg ps pe) calls ((sendProgress e stg ps st)\<lparr>disk := disk'\<rparr>))))
          = (Inr (), st5)
      \<and> st' = sendProgress e stg (Math_round (of_int pe)) (unlinkSync (path_join [userData e, filename info]) st5)"
  using assms
  by (auto simp: downloadAndInstallArchive_def Let_def split: option.splits prod.splits sum.splits)

lemma downloadAndInstallArchive_cbcalls:
  assumes "downloadAndInstallArchive e info key ps pe stg st = Some (r, st')"
  shows "\<exists>xs. cbcalls st' = cbcalls st @ xs"
  using assms
  by (auto simp: downloadAndInstallArchive_def Let_def
      split: option.splits prod.splits sum.splits dest!: extractZip_simps)

lemma downloadAndInstallArchive_rising:
  assumes run: "downloadAndInstallArchive e info key ps pe stg st = Some (Inr (), st')"
    and st: "rising_upto b st" and b: "b \<le> ps" and range: "ps \<le> pe"
    and bound: "list_all (\<lambda>c. fst c \<le> snd c) (cbcalls st')"
  shows "rising_upto pe st'"
proof -
  let ?zip = "path_join [userData e, filename info]"
  let ?V = "Math_round (of_int ps + of_int (pe - ps) * (7 / 10))"
  let ?X = "Math_round (of_int ps + of_int (pe - ps) * (8 / 10))"
  let ?st1 = "sendProgress e stg ps st"
  from downloadAndInstallArchive_success [OF run] obtain disk' calls st5 where
    dl: "downloadFileWithResume (network e) (writeErrorOf e (?zip @ ''.partial''))
        (R2_BASE_URL @ ''/'' @ filename info) ?zip (size info) (disk ?st1) = Some (Inr (), disk', calls)"
    and ex: "extractZip e ?zip (userData e)
          (sendProgress e stg ?X (sendProgress e stg ?V
              (fold (progressCb e stg ps pe) calls (?st1\<lparr>disk := disk'\<rparr>)))) = (Inr (), st5)"
    and st': "st' = sendProgress e stg (Math_round (of_int pe)) (unlinkSync ?zip st5)"
    by blast
  let ?st2 = "fold (progressCb e stg ps pe) calls (?st1\<lparr>disk := disk'\<rparr>)"
  have cb5: "cbcalls st5 = cbcalls st @ calls"
    using extractZip_simps [OF ex] by simp
  then have "cbcalls st' = cbcalls st @ calls"
    by (simp add: st')
  with bound have cbound: "list_all (\<lambda>c. fst c \<le> snd c) calls"
    by simp
  from download_calls [OF dl] obtain t where
    shape: "sorted (map fst calls)" "list_all (\<lambda>c. snd c = t) calls"
    by blast
  have psV: "ps \<le> ?V"
  proof -
    have "Math_round (of_int ps) \<le> ?V"
      using range by (intro Math_round_mono) simp
    then show ?thesis by simp
  qed
  have VX: "?V \<le> ?X"
    using range by (intro Math_round_mono) simp
  have Xpe: "?X \<le> pe"
  proof -
    have "(of_int ps :: rat) + of_int (pe - ps) * (8 / 10) \<le> of_int pe"
      using range by (simp add: field_simps)
    then have "?X \<le> Math_round (of_int pe)"
      by (rule Math_round_mono)
    then show ?thesis by simp
  qed
  have sorted_pct: "sorted (map (dlPercent ps pe) calls)"
  proof -
    have "\<And>c c'. c \<in> set calls \<Longrightarrow> c' \<in> set calls \<Longrightarrow> fst c \<le> fst c'
        \<Longrightarrow> dlPercent ps pe c \<le> dlPercent ps pe c'"
    proof -
      fix c c' assume "c \<in> set calls" "c' \<in> set calls" "fst c \<le> fst c'"
      with shape(2) have "snd c = t" "snd c' = t"
        by (auto simp: list_all_iff)
      with dlPercent_mono [OF range \<open>fst c \<le> fst c'\<close>, of t]
      show "dlPercent ps pe c \<le> dlPercent ps pe c'"
        by (metis prod.collapse)
    qed
    with shape(1) show ?thesis
      by (induction calls) auto
  qed
  have bounds: "list_all (\<lambda>c. ps \<le> dlPercent ps pe c \<and> dlPercent ps pe c \<le> ?V) calls"
    using cbound dlPercent_lower [OF range] dlPercent_upper [OF range]
    by (auto simp: list_all_iff)
  have 1: "rising_upto ps ?st1"
    using st b by (rule rising_sendProgress)
  then have "rising_upto ps (?st1\<lparr>disk := disk'\<rparr>)"
    by (simp add: rising_upto_def)
  then have 2: "rising_upto ?V ?st2"
    using sorted_pct bounds psV by (rule rising_fold_progressCb)
  have 3: "rising_upto ?X (sendProgress e stg ?X (sendProgress e stg ?V ?st2))"
    by (intro rising_sendProgress [OF _ VX] rising_sendProgress [OF 2]) simp
  have "events st5 = events (sendProgress e stg ?X (sendProgress e stg ?V ?st2))"
    using extractZip_simps [OF ex] by simp
  with 3 have "rising_upto ?X (unlinkSync ?zip st5)"
    by (simp add: rising_upto_def)
  then have "rising_upto (Math_round (of_int pe)) st'"
    unfolding st' using Xpe by (intro rising_sendProgress) simp_all
  then show ?thesis
    by simp
qed

lemma installArchives_cbcalls:
  "installArchives e m i keys st = Some (r, st') \<Longrightarrow> \<exists>xs. cbcalls st' = cbcalls st @ xs"
proof (induction keys arbitrary: i st)
  case Nil
  then show ?case by simp
next
  case (Cons key keys)
  show ?case
  proof (cases "abortRequested e i \<or> archives m key = None")
    case True
    with Cons.prems show ?thesis by (auto split: if_splits)
  next
    case False
    then obtain info where info: "archives m key = Some info" "\<not> abortRequested e i"
      by auto
    let ?d = "downloadAndInstallArchive e info key (fst (snd (archiveStage key)))
                       (snd (snd (archiveStage key))) (fst (archiveStage key)) st"
    from Cons.prems info obtain r1 st1 where d: "?d = Some (r1, st1)"
      by (cases ?d) auto
    from downloadAndInstallArchive_cbcalls [OF d] obtain xs where xs: "cbcalls st1 = cbcalls st @ xs"
      by blast
    show ?thesis
    proof (cases r1)
      case (Inl err)
      with Cons.prems info d xs show ?thesis by simp
    next
      case (Inr u)
      with Cons.prems info d have "installArchives e m (Suc i) keys st1 = Some (r, st')"
        by simp
      from Cons.IH [OF this] xs show ?thesis by auto
    qed
  qed
qed

lemma installArchives_rising:
  "installArchives e m i keys st = Some (Inr (), st') \<Longrightarrow> rising_upto b st \<Longrightarrow> chained b keys bend
     \<Longrightarrow> list_all (\<lambda>c. fst c \<le> snd c) (cbcalls st') \<Longrightarrow> rising_upto bend st'"
proof (induction keys arbitrary: i st b)
  case Nil
  then show ?case
    by (simp add: rising_weaken)
next
  case (Cons key keys)
  from Cons.prems(1) obtain info where info: "archives m key = Some info" "\<not> abortRequested e i"
    by (auto split: if_splits option.splits)
  let ?ps = "fst (snd (archiveStage key))"
  let ?pe = "snd (snd (archiveStage key))"
  let ?d = "downloadAndInstallArchive e info key ?ps ?pe (fst (archiveStage key)) st"
  from Cons.prems(1) info obtain r1 st1 where d: "?d = Some (r1, st1)"
    by (cases ?d) auto
  from Cons.prems(1) info d have r1: "r1 = Inr ()" and rest: "installArchives e m (Suc i) keys st1 = Some (Inr (), st')"
    by (cases r1; simp)+
  from installArchives_cbcalls [OF rest] Cons.prems(4)
  have b1: "list_all (\<lambda>c. fst c \<le> snd c) (cbcalls st1)"
    by auto
  from Cons.prems(3) have ch: "b \<le> ?ps" "?ps \<le> ?pe" "chained ?pe keys bend"
    by simp_all
  have "rising_upto ?pe st1"
    using d [unfolded r1] Cons.prems(2) ch(1,2) b1 by (rule downloadAndInstallArchive_rising)
  with rest show ?case
    using ch(3) Cons.prems(4) by (rule Cons.IH)
qed

lemma archiveKeys_chained: "chained 2 (archiveKeysFor gpu m) 95"
  by (simp add: archiveKeysFor_def archiveStage_def)

lemma runSetup_try_rising:
  assumes "runSetup_try e opts st = Some (Inr r, st')" and "events st = []"
    and "list_all (\<lambda>c. fst c \<le> snd c) (cbcalls st')"
  shows "rising_upto 100 st'"
proof -
  let ?st1 = "sendProgress e ''python'' 2 st"
  from assms(1) obtain mf st2 st4 st5 where
    inst: "installArchives e mf 0 (archiveKeysFor (useGpu opts) mf) ?st1 = Some (Inr (), st2)"
    and p: "fixPth e (sendProgress e ''model'' 96 st2) = (Inr (), st4)"
    and w: "writeFileSync e (setupFlagPath (userData e)) (stringify e (completionMarker e opts mf)) st4 = (Inr (), st5)"
    and st': "st' = sendProgress e ''complete'' 100 st5"
    by (rule runSetup_try_Inr)
  have e4: "events st4 = events (sendProgress e ''model'' 96 st2)" "cbcalls st4 = cbcalls st2"
    using fixPth_simps(1,2) [of e "sendProgress e ''model'' 96 st2"] p by simp_all
  have e5: "events st5 = events st4" "cbcalls st5 = cbcalls st4"
    using writeFileSync_simps(1,2) [of e "setupFlagPath (userData e)" "stringify e (completionMarker e opts mf)" st4] w
    by simp_all
  have "cbcalls st' = cbcalls st2"
    by (simp add: st' e4 e5)
  with assms(3) have b2: "list_all (\<lambda>c. fst c \<le> snd c) (cbcalls st2)"
    by simp
  have "rising_upto 2 ?st1"
    using assms(2) by (simp add: rising_upto_def sendProgress_def)
  with inst have "rising_upto 95 st2"
    using archiveKeys_chained b2 by (rule installArchives_rising)
  then have "rising_upto 96 (sendProgress e ''model'' 96 st2)"
    by (rule rising_sendProgress) simp
  then have "rising_upto 96 st5"
    by (simp add: rising_upto_def e4 e5)
  then show ?thesis
    unfolding st' by (rule rising_sendProgress) simp
qed

text \<open>
  C4 (amended). Across every successful \<^verbatim>\<open>runSetup\<close> run, started with no events yet,
  in which no invocation of the download callback reports more bytes than the total (the
  bytes received for an archive never exceed its declared size): the percent values of
  the events sent are non-decreasing, for all archive sizes, chunkings, resumed and
  promoted downloads; and the last call of \<^verbatim>\<open>sendProgress\<close> is
  \<^verbatim>\<open>('complete', 100)\<close>, so that the last event sent reports 100 when the window could
  still be sent to at that call.
\<close>

theorem runSetup_progress_monotone:
  assumes "runSetup e opts st = Some (Inr r, st')" and "events st = []"
    and "\<forall>c \<in> set (cbcalls st'). fst c \<le> snd c"
  shows "sorted (map percent (events st'))
       \<and> (windowUsable e (nsend st' - 1) \<longrightarrow>
            events st' \<noteq> [] \<and> last (events st') = \<lparr>stage = ''complete'', percent = 100\<rparr>)"
proof -
  from assms(1) have t: "runSetup_try e opts st = Some (Inr r, st')"
    by (auto simp: runSetup_def split: option.splits sum.splits prod.splits)
  from assms(3) have "list_all (\<lambda>c. fst c \<le> snd c) (cbcalls st')"
    by (simp add: list_all_iff)
  with t assms(2) have "rising_upto 100 st'"
    by (rule runSetup_try_rising)
  moreover from runSetup_try_complete [OF t]
  have "windowUsable e (nsend st' - 1) \<longrightarrow>
            events st' \<noteq> [] \<and> last (events st') = \<lparr>stage = ''complete'', percent = 100\<rparr>"
    by blast
  ultimately show ?thesis
    by (simp add: rising_upto_def)
qed

section \<open>Example runs\<close>

lemma floor_rat_numeral:
  "\<lfloor>(numeral a :: rat) / numeral b\<rfloor> = numeral a div numeral b"
  by (metis floor_divide_of_int_eq of_int_numeral)

lemma example_env_simps:
  "userData (example_env d) = ''C:/data''"
  "network (example_env d) = example_net"
  "writeErrorOf (example_env d) = (\<lambda>p. None)"
  "parseManifest (example_env d) = (\<lambda>text. Inr (example_manifest d))"
  "stringify (example_env d) = (\<lambda>m. ''{\"setupVersion\":2}'')"
  "tar (example_env d) = (\<lambda>bytes. Some [(''python/python310._pth'', ''#import site'')])"
  "expandArchive (example_env d) = (\<lambda>bytes. None)"
  "windowUsable (example_env d) = (\<lambda>n. True)"
  "abortRequested (example_env d) = (\<lambda>i. False)"
  "writeFault (example_env d) = (\<lambda>p. None)"
  "readFails (example_env d) = (\<lambda>p. False)"
  by (simp_all add: example_env_def)

lemma example_makeRequest:
  "url \<noteq> R2_BASE_URL @ ''/manifest.json'' \<Longrightarrow>
     makeRequest example_net w r pp dp es sb f None url =
       Some (onResponse w pp dp es sb (plain_response 200 ''abc'') f)"
  by (rule makeRequest_answers, rule answers_direct) (simp_all add: example_net_def plain_response_def)

lemma example_net_simps:
  "example_net (R2_BASE_URL @ ''/manifest.json'') r = Response (plain_response 200 ''{}'')"
  "example_net (R2_BASE_URL @ ''/a.zip'') r = Response (plain_response 200 ''abc'')"
  by (simp_all add: example_net_def)

lemmas run_simps =
  runSetup_def runSetup_try_def fetchManifest_def readJson_def
  archiveKeysFor_def archiveStage_def downloadAndInstallArchive_def downloadFileWithResume_def
  example_makeRequest onResponse_def startByte_after_def write_flags_def verifyChecksum_def
  sha256_abc extractZip_def unpack_def unlinkSync_def sendProgress_def progressCb_def
  writeFileSync_def fixPth_def completionMarker_def setupFlagPath_def Math_round_def
  example_env_simps example_net_simps example_manifest_def plain_response_def initial_state_def
  Let_def startsWith_def floor_rat_numeral run_summary_def

lemma example_run_declared_3:
  "run_summary ''C:/data/.setup-complete''
     (runSetup (example_env 3) \<lparr>model = None, useGpu = True\<rparr> initial_state) =
   Some (Inr \<lparr>success = True\<rparr>,
     [2, 5, 19, 19, 21, 25, 25, 46, 46, 49, 55, 55, 66, 66, 67, 70, 70, 88, 88, 90, 95, 96, 100],
     [(3, 3), (3, 3), (3, 3), (3, 3)],
     Some ''{\"setupVersion\":2}'',
     [(''C:/data/.setup-complete'', ''{\"setupVersion\":2}'')])"
  by (simp add: run_simps)

lemma example_run_declared_1:
  "run_summary ''C:/data/.setup-complete''
     (runSetup (example_env 1) \<lparr>model = None, useGpu = True\<rparr> initial_state) =
   Some (Inr \<lparr>success = True\<rparr>,
     [2, 5, 47, 19, 21, 25, 25, 88, 46, 49, 55, 55, 87, 66, 67, 70, 70, 123, 88, 90, 95, 96, 100],
     [(3, 1), (3, 1), (3, 1), (3, 1)],
     Some ''{\"setupVersion\":2}'',
     [(''C:/data/.setup-complete'', ''{\"setupVersion\":2}'')])"
  by (simp add: run_simps)

lemma offline_run:
  "run_summary ''C:/data/.setup-complete''
     (runSetup offline_env \<lparr>model = None, useGpu = True\<rparr> initial_state) =
   Some (Inl (CannotReachServer (IOError ''ENOTFOUND'')), [2, 0], [], None, [])"
  by (simp add: runSetup_def runSetup_try_def fetchManifest_def offline_env_def example_env_def
      sendProgress_def initial_state_def run_summary_def)


lemma full_disk_run:
  "run_summary ''C:/data/.setup-complete''
     (runSetup full_disk_env \<lparr>model = None, useGpu = True\<rparr> initial_state) =
   Some (Inl (IOError ''writeFileSync''),
     [2, 5, 19, 19, 21, 25, 25, 46, 46, 49, 55, 55, 66, 66, 67, 70, 70, 88, 88, 90, 95, 96, 0],
     [(3, 3), (3, 3), (3, 3), (3, 3)],
     Some [],
     [(''C:/data/.setup-complete'', [])])"
  by (simp add: full_disk_env_def run_simps)


lemma run_summary_SomeD:
  "run_summary p r = Some (a, ps, cs, f, ws) \<Longrightarrow>
     \<exists>st'. r = Some (a, st') \<and> map percent (events st') = ps \<and> cbcalls st' = cs \<and> disk st' p = f
        \<and> filter (\<lambda>w. fst w = p) (writes st') = ws"
  by (auto simp: run_summary_def)



text \<open>
  The third condition is needed as well: when the disk is full at the end, the write of
  the marker opens the file and throws; the run ends in the error state and an empty
  marker file is there.
\<close>

lemma full_disk_leaves_marker:
  "\<exists>st'. runSetup full_disk_env \<lparr>model = None, useGpu = True\<rparr> initial_state
             = Some (Inl (IOError ''writeFileSync''), st')
      \<and> disk st' ''C:/data/.setup-complete'' = Some [] \<and> \<not> needsSetup ''C:/data'' (disk st')"
proof -
  from run_summary_SomeD [OF full_disk_run] obtain s1 where
    s1: "runSetup full_disk_env \<lparr>model = None, useGpu = True\<rparr> initial_state
           = Some (Inl (IOError ''writeFileSync''), s1)"
      "disk s1 ''C:/data/.setup-complete'' = Some []"
    by blast
  have "\<not> needsSetup ''C:/data'' (disk s1)"
    using s1(2) by (simp add: needsSetup_def)
  with s1 show ?thesis
    by auto
qed

text \<open>
  The example installation with the declared size equal to the three bytes served.
\<close>

theorem runSetup_progress_monotone_witness:
  "\<exists>st'. runSetup (example_env 3) \<lparr>model = None, useGpu = True\<rparr> initial_state = Some (Inr \<lparr>success = True\<rparr>, st')
      \<and> cbcalls st' = [(3, 3), (3, 3), (3, 3), (3, 3)]
      \<and> sorted (map percent (events st'))
      \<and> last (events st') = \<lparr>stage = ''complete'', percent = 100\<rparr>"
proof -
  from run_summary_SomeD [OF example_run_declared_3] obtain s1 where
    s1: "runSetup (example_env 3) \<lparr>model = None, useGpu = True\<rparr> initial_state = Some (Inr \<lparr>success = True\<rparr>, s1)"
    and cb: "cbcalls s1 = [(3, 3), (3, 3), (3, 3), (3, 3)]"
    by blast
  have "sorted (map percent (events s1))
       \<and> (windowUsable (example_env 3) (nsend s1 - 1) \<longrightarrow>
            events s1 \<noteq> [] \<and> last (events s1) = \<lparr>stage = ''complete'', percent = 100\<rparr>)"
    by (rule runSetup_progress_monotone [OF s1]) (simp_all add: initial_state_def cb)
  then show ?thesis
    using s1 cb by (auto simp: example_env_simps)
qed

lemma closed_window_run:
  "run_summary ''C:/data/.setup-complete''
     (runSetup closed_window_env \<lparr>model = None, useGpu = True\<rparr> initial_state) =
   Some (Inr \<lparr>success = True\<rparr>, [2, 5, 19, 19, 21], [(3, 3), (3, 3), (3, 3), (3, 3)],
     Some ''{\"setupVersion\":2}'',
     [(''C:/data/.setup-complete'', ''{\"setupVersion\":2}'')])"
  by (simp add: closed_window_env_def run_simps)

text \<open>
  C4 as stated fails in two ways. When an archive is longer than the manifest declares
  and its digest is the declared one (the manifest declares one byte, the archive has
  three), the callback reports 300 percent of the download and the run completes with
  the percent values below, where 47 is followed by 19. And when the window is closed
  during the run, the run completes and the last event sent is not the one with 100.
\<close>

theorem runSetup_progress_monotone_counterexample:
  "run_summary ''C:/data/.setup-complete''
     (runSetup (example_env 1) \<lparr>model = None, useGpu = True\<rparr> initial_state) =
   Some (Inr \<lparr>success = True\<rparr>,
     [2, 5, 47, 19, 21, 25, 25, 88, 46, 49, 55, 55, 87, 66, 67, 70, 70, 123, 88, 90, 95, 96, 100],
     [(3, 1), (3, 1), (3, 1), (3, 1)],
     Some ''{\"setupVersion\":2}'',
     [(''C:/data/.setup-complete'', ''{\"setupVersion\":2}'')])
   \<and> \<not> sorted [2, 5, 47, 19, 21, 25, 25, 88, 46, 49, 55, 55, 87, 66, 67, 70, 70, 123, 88, 90, 95, 96, 100 :: int]
   \<and> run_summary ''C:/data/.setup-complete''
     (runSetup closed_window_env \<lparr>model = None, useGpu = True\<rparr> initial_state) =
   Some (Inr \<lparr>success = True\<rparr>, [2, 5, 19, 19, 21], [(3, 3), (3, 3), (3, 3), (3, 3)],
     Some ''{\"setupVersion\":2}'',
     [(''C:/data/.setup-complete'', ''{\"setupVersion\":2}'')])
   \<and> last [2, 5, 19, 19, 21] \<noteq> (100 :: int)"
  using example_run_declared_1 closed_window_run by simp

end
